theory Spec2Isabelle
  imports
    Complex_Main
    "HOL-Library.Char_ord"
    "HOL-Library.List_Lexorder"
    "HOL-Library.AList"
    "HOL-Library.Log_Nat"
begin

section \<open>Python values and exceptions\<close>

text \<open>
  The exceptions that the modelled parts of \<open>pymotdstats.py\<close> can raise. A computation
  that can raise has a result of type \<open>py_error + 'a\<close>, with \<open>Inl\<close> for the exception.
\<close>

datatype py_error =
    TypeError
  | IndexError
  | ValueError
  | KeyError
  | ZeroDivisionError
  | OverflowError
  | CalledProcessError

text \<open>
  The values that reach the comparisons of the script: an \<open>int\<close>, a \<open>str\<close>, \<open>None\<close>, and
  the two kinds of \<open>set\<close> that \<open>get_config\<close> stores (of \<open>str\<close> and of \<open>int\<close>; the empty set
  is written with either constructor).
\<close>

datatype pyval =
    PNone
  | PInt int
  | PStr string
  | PStrSet "string set"
  | PIntSet "int set"

text \<open>
  Python's \<open>a >= b\<close>: numeric on two ints, lexicographic by code point on two strings,
  superset on two sets (a \<open>str\<close> is never equal to an \<open>int\<close>, so a set of one kind
  contains a set of the other kind only when the latter is empty), and \<open>TypeError\<close> for
  every other pair of types.
\<close>

fun py_ge :: "pyval \<Rightarrow> pyval \<Rightarrow> py_error + bool" where
  "py_ge (PInt a) (PInt b) = Inr (b \<le> a)"
| "py_ge (PStr a) (PStr b) = Inr (b \<le> a)"
| "py_ge (PStrSet a) (PStrSet b) = Inr (b \<subseteq> a)"
| "py_ge (PIntSet a) (PIntSet b) = Inr (b \<subseteq> a)"
| "py_ge (PStrSet a) (PIntSet b) = Inr (b = {})"
| "py_ge (PIntSet a) (PStrSet b) = Inr (b = {})"
| "py_ge _ _ = Inl TypeError"

text \<open>Python's truth value of an object: \<open>None\<close>, \<open>0\<close>, \<open>''\<close> and \<open>set()\<close> are false.\<close>

fun truthy :: "pyval \<Rightarrow> bool" where
  "truthy PNone = False"
| "truthy (PInt i) = (i \<noteq> 0)"
| "truthy (PStr s) = (s \<noteq> [])"
| "truthy (PStrSet S) = (S \<noteq> {})"
| "truthy (PIntSet S) = (S \<noteq> {})"

text \<open>
  A condition that may raise, followed by its two branches; \<open>or\<close> and \<open>and\<close> evaluate
  their right operand only when the left one does not decide, so an exception of the
  right operand is raised only then.
\<close>

definition py_if :: "py_error + bool \<Rightarrow> py_error + 'a \<Rightarrow> py_error + 'a \<Rightarrow> py_error + 'a" where
  "py_if c t e = (case c of Inl x \<Rightarrow> Inl x | Inr b \<Rightarrow> if b then t else e)"

definition py_or :: "py_error + bool \<Rightarrow> py_error + bool \<Rightarrow> py_error + bool" where
  "py_or a b = py_if a (Inr True) b"

definition py_and :: "py_error + bool \<Rightarrow> py_error + bool \<Rightarrow> py_error + bool" where
  "py_and a b = py_if a b (Inr False)"

definition py_bind :: "py_error + 'a \<Rightarrow> ('a \<Rightarrow> py_error + 'b) \<Rightarrow> py_error + 'b" where
  "py_bind m f = (case m of Inl e \<Rightarrow> Inl e | Inr x \<Rightarrow> f x)"

text \<open>A \<open>for\<close> loop over a list whose body may raise: the first exception ends the loop.\<close>

fun for_each :: "('s \<Rightarrow> 'a \<Rightarrow> py_error + 's) \<Rightarrow> 's \<Rightarrow> 'a list \<Rightarrow> py_error + 's" where
  "for_each body s [] = Inr s"
| "for_each body s (x # xs) =
     (case body s x of Inl e \<Rightarrow> Inl e | Inr s' \<Rightarrow> for_each body s' xs)"

text \<open>\<open>xs[i]\<close> for an index \<open>i \<ge> 0\<close>: \<open>IndexError\<close> out of range.\<close>

definition py_nth :: "'a list \<Rightarrow> nat \<Rightarrow> py_error + 'a" where
  "py_nth xs i = (if i < length xs then Inr (xs ! i) else Inl IndexError)"

section \<open>Strings\<close>

text \<open>
  A \<open>str\<close> is modelled as a \<open>string\<close> whose characters are the code points below 256.
  \<open>py_isspace\<close> is \<open>str.isspace\<close> on one character of that range: the whitespace that
  \<open>split()\<close>, \<open>strip()\<close>, \<open>int()\<close> and the pattern \<open>\s\<close> recognise.
\<close>

definition py_isspace :: "char \<Rightarrow> bool" where
  "py_isspace c = ((of_char c :: nat) \<in> set [9, 10, 11, 12, 13, 28, 29, 30, 31, 32, 133, 160])"

text \<open>\<open>s.strip()\<close>.\<close>

definition strip :: "string \<Rightarrow> string" where
  "strip s = rev (dropWhile py_isspace (rev (dropWhile py_isspace s)))"

text \<open>\<open>s.split()\<close>: the maximal runs of characters that are not whitespace.\<close>

fun split_ws_acc :: "string \<Rightarrow> string \<Rightarrow> string list" where
  "split_ws_acc cur [] = (if cur = [] then [] else [cur])"
| "split_ws_acc cur (c # cs) =
     (if py_isspace c then (if cur = [] then split_ws_acc [] cs else cur # split_ws_acc [] cs)
      else split_ws_acc (cur @ [c]) cs)"

definition split_ws :: "string \<Rightarrow> string list" where
  "split_ws s = split_ws_acc [] s"

text \<open>\<open>s.split(sep)\<close> for a separator of one character: never the empty list.\<close>

fun split_on_acc :: "char \<Rightarrow> string \<Rightarrow> string \<Rightarrow> string list" where
  "split_on_acc sep cur [] = [cur]"
| "split_on_acc sep cur (c # cs) =
     (if c = sep then cur # split_on_acc sep [] cs else split_on_acc sep (cur @ [c]) cs)"

definition split_on :: "char \<Rightarrow> string \<Rightarrow> string list" where
  "split_on sep s = split_on_acc sep [] s"

text \<open>
  \<open>int(s)\<close> on a string: surrounding whitespace is ignored, then an optional sign, then
  decimal digits, where single underscores may separate digits. \<open>None\<close> stands for
  \<open>ValueError\<close>. (The interpreter's optional limit on the number of digits is not
  modelled.)
\<close>

definition is_digit :: "char \<Rightarrow> bool" where
  "is_digit c = (48 \<le> (of_char c :: nat) \<and> (of_char c :: nat) \<le> 57)"

definition digit_val :: "char \<Rightarrow> int" where
  "digit_val c = int (of_char c) - 48"

fun parse_digits :: "int \<Rightarrow> bool \<Rightarrow> string \<Rightarrow> int option" where
  "parse_digits acc after_digit [] = (if after_digit then Some acc else None)"
| "parse_digits acc after_digit (c # cs) =
     (if is_digit c then parse_digits (10 * acc + digit_val c) True cs
      else if c = CHR ''_'' \<and> after_digit then parse_digits acc False cs
      else None)"

definition py_int :: "string \<Rightarrow> int option" where
  "py_int s =
     (case strip s of
        [] \<Rightarrow> None
      | c # cs \<Rightarrow>
          if c = CHR ''-'' then map_option uminus (parse_digits 0 False cs)
          else if c = CHR ''+'' then parse_digits 0 False cs
          else parse_digits 0 False (c # cs))"

definition py_int_or_raise :: "string \<Rightarrow> py_error + int" where
  "py_int_or_raise s = (case py_int s of None \<Rightarrow> Inl ValueError | Some i \<Rightarrow> Inr i)"

section \<open>Floating point\<close>

text \<open>
  A finite Python \<open>float\<close> (IEEE 754 binary64) is modelled as the rational number it
  denotes. \<open>ilog2 x\<close> is the exponent \<open>e\<close> with \<open>2\<^sup>e \<le> x < 2\<^sup>e\<^sup>+\<^sup>1\<close> of a positive \<open>x\<close>.
\<close>

definition ilog2 :: "rat \<Rightarrow> int" where
  "ilog2 x =
     (let (p, q) = quotient_of x; d = bitlen p - bitlen q
      in if 2 powi d \<le> x then d else d - 1)"

text \<open>Rounding to the nearest integer, a tie to the even one.\<close>

definition round_half_even :: "rat \<Rightarrow> int" where
  "round_half_even z =
     (let f = \<lfloor>z\<rfloor>; r = z - of_int f
      in if r < 1 / 2 then f else if 1 / 2 < r then f + 1
         else if even f then f else f + 1)"

text \<open>
  The spacing of the binary64 numbers around \<open>x\<close>: 53 significant bits, and the fixed
  spacing \<open>2\<^sup>-\<^sup>1\<^sup>0\<^sup>7\<^sup>4\<close> of the subnormal numbers below \<open>2\<^sup>-\<^sup>1\<^sup>0\<^sup>2\<^sup>2\<close>.
\<close>

definition ulp :: "rat \<Rightarrow> rat" where
  "ulp x = 2 powi (max (ilog2 \<bar>x\<bar>) (- 1022) - 52)"

text \<open>
  Rounding of a rational number to binary64, to nearest and ties to even, with no
  bound on the exponent from above (the callers test for overflow).
\<close>

definition rnd :: "rat \<Rightarrow> rat" where
  "rnd x =
     (if x = 0 then 0
      else sgn x * of_int (round_half_even (\<bar>x\<bar> / ulp x)) * ulp x)"

definition DBL_MAX :: rat where
  "DBL_MAX = (2 ^ 53 - 1) * 2 ^ 971"

text \<open>
  \<open>a / b\<close> on two ints: the quotient correctly rounded, \<open>ZeroDivisionError\<close> for a
  zero divisor, \<open>OverflowError\<close> when the rounded quotient is not a finite float.
\<close>

definition true_div :: "int \<Rightarrow> int \<Rightarrow> py_error + rat" where
  "true_div a b =
     (if b = 0 then Inl ZeroDivisionError
      else (let r = rnd (of_int a / of_int b)
            in if DBL_MAX < \<bar>r\<bar> then Inl OverflowError else Inr r))"

text \<open>
  \<open>n - x\<close> for an int \<open>n\<close> that is exactly a float (as 100 is) and a float \<open>x\<close>: the
  rounded difference. (The difference of 100 and a finite float rounds to a finite float.)
\<close>

definition int_minus_float :: "int \<Rightarrow> rat \<Rightarrow> rat" where
  "int_minus_float n x = rnd (of_int n - x)"

text \<open>\<open>int(x)\<close> on a finite float: truncation toward zero.\<close>

definition float_to_int :: "rat \<Rightarrow> int" where
  "float_to_int x = (if 0 \<le> x then \<lfloor>x\<rfloor> else \<lceil>x\<rceil>)"

section \<open>Protocol\<close>

text \<open>The enumeration \<open>Protocol\<close> and the \<open>value\<close> of each member.\<close>

datatype Protocol = TCP | TCP6 | UDP | UDP6

fun proto_value :: "Protocol \<Rightarrow> string" where
  "proto_value TCP = ''tcp''"
| "proto_value TCP6 = ''tcp6''"
| "proto_value UDP = ''udp''"
| "proto_value UDP6 = ''udp6''"

text \<open>\<open>for p in cls\<close> visits the members in definition order.\<close>

definition Protocol_members :: "Protocol list" where
  "Protocol_members = [TCP, TCP6, UDP, UDP6]"

fun from_value :: "pyval \<Rightarrow> Protocol option" where
  "from_value (PStr v) = find (\<lambda>p. proto_value p = v) Protocol_members"
| "from_value _ = None"

text \<open>
  \<open>__lt__\<close>, \<open>__eq__\<close> and \<open>__hash__\<close> of \<open>Protocol\<close>, each through \<open>value\<close>; \<open>str_hash\<close>
  stands for Python's \<open>hash\<close> on strings.
\<close>

definition Protocol_lt :: "Protocol \<Rightarrow> Protocol \<Rightarrow> bool" where
  "Protocol_lt self other = (proto_value self < proto_value other)"

definition Protocol_eq :: "Protocol \<Rightarrow> Protocol \<Rightarrow> bool" where
  "Protocol_eq self other = (proto_value self = proto_value other)"

definition Protocol_hash :: "(string \<Rightarrow> int) \<Rightarrow> Protocol \<Rightarrow> int" where
  "Protocol_hash str_hash self = str_hash (proto_value self)"

text \<open>
  A monitored or observed port is the tuple \<open>(port, protocol)\<close>; tuples compare equal
  when their components do, the second one through \<open>Protocol.__eq__\<close>.
\<close>

type_synonym port = "int \<times> Protocol"

definition port_eq :: "port \<Rightarrow> port \<Rightarrow> bool" where
  "port_eq a b = (fst a = fst b \<and> Protocol_eq (snd a) (snd b))"

section \<open>Configuration\<close>

text \<open>
  What \<open>configparser\<close> hands to \<open>get_config\<close>: for each section its name and its items
  (key and value) in file order. \<open>NoFile\<close> is a path that is not a file, \<open>BadSyntax\<close> a
  file on which the parser raises \<open>configparser.Error\<close>.
\<close>

type_synonym ini_section = "(string \<times> string) list"

datatype ini_file = NoFile | BadSyntax | Parsed "(string \<times> ini_section) list"

type_synonym config = "string \<rightharpoonup> pyval"

text \<open>Lines 101 to 104: the value of a key of the sections \<open>display\<close> and \<open>threshold\<close>.\<close>

definition int_setting :: "string \<Rightarrow> pyval" where
  "int_setting v = (case py_int (strip v) of Some i \<Rightarrow> PInt i | None \<Rightarrow> PNone)"

text \<open>Lines 109 and 110: the value of a key of the sections \<open>disk\<close> and \<open>services\<close>.\<close>

definition stripped_tokens :: "string \<Rightarrow> string list" where
  "stripped_tokens v = filter (\<lambda>x. x \<noteq> []) (map strip (split_on CHR '','' v))"

definition str_set_setting :: "string \<Rightarrow> pyval" where
  "str_set_setting v = PStrSet (set (stripped_tokens v))"

text \<open>
  Lines 115 to 119: \<open>set(map(int, ...))\<close> converts the tokens one after the other and
  raises at the first one that \<open>int\<close> rejects; the handler then stores \<open>set()\<close>.
\<close>

fun map_int :: "string list \<Rightarrow> py_error + int list" where
  "map_int [] = Inr []"
| "map_int (t # ts) =
     (case py_int t of
        None \<Rightarrow> Inl ValueError
      | Some i \<Rightarrow> (case map_int ts of Inl e \<Rightarrow> Inl e | Inr is \<Rightarrow> Inr (i # is)))"

definition port_set_setting :: "string \<Rightarrow> pyval" where
  "port_set_setting v =
     (case map_int (stripped_tokens v) of
        Inl e \<Rightarrow> PIntSet {}
      | Inr is \<Rightarrow> PIntSet (set is))"

text \<open>\<open>for k in parser[s]: config[k] = ...\<close> for one section, when it is present.\<close>

fun store_items :: "(string \<Rightarrow> pyval) \<Rightarrow> ini_section \<Rightarrow> config \<Rightarrow> config" where
  "store_items f [] cfg = cfg"
| "store_items f ((k, v) # rest) cfg = store_items f rest (cfg(k \<mapsto> f v))"

definition store_section ::
  "(string \<Rightarrow> pyval) \<Rightarrow> (string \<times> ini_section) list \<Rightarrow> string \<Rightarrow> config \<Rightarrow> config" where
  "store_section f sections s cfg =
     (case map_of sections s of None \<Rightarrow> cfg | Some items \<Rightarrow> store_items f items cfg)"

fun get_config :: "ini_file \<Rightarrow> config" where
  "get_config NoFile = Map.empty"
| "get_config BadSyntax = Map.empty"
| "get_config (Parsed sections) =
     store_section port_set_setting sections ''ports''
       (store_section str_set_setting sections ''services''
         (store_section str_set_setting sections ''disk''
           (store_section int_setting sections ''threshold''
             (store_section int_setting sections ''display'' Map.empty))))"

text \<open>
  \<open>parser[s][k]\<close> when the section \<open>s\<close> is present and has the key \<open>k\<close>: the value of the
  last item with that key (the keys of a parsed section are distinct).
\<close>

definition section_item :: "(string \<times> ini_section) list \<Rightarrow> string \<Rightarrow> string \<Rightarrow> string option" where
  "section_item sections s k =
     (case map_of sections s of None \<Rightarrow> None | Some items \<Rightarrow> map_of (rev items) k)"

text \<open>
  The text of a numeric setting: the sections \<open>display\<close> and \<open>threshold\<close> are read in this
  order, so a key of \<open>threshold\<close> is stored last.
\<close>

definition numeric_text :: "(string \<times> ini_section) list \<Rightarrow> string \<Rightarrow> string option" where
  "numeric_text sections k =
     (case section_item sections ''threshold'' k of
        Some v \<Rightarrow> Some v
      | None \<Rightarrow> section_item sections ''display'' k)"

text \<open>\<open>config.get(key, default) or default\<close>, lines 470 to 478.\<close>

definition get_or_default :: "config \<Rightarrow> string \<Rightarrow> int \<Rightarrow> pyval" where
  "get_or_default cfg key dflt =
     (let v = (case cfg key of None \<Rightarrow> PInt dflt | Some x \<Rightarrow> x)
      in if truthy v then v else PInt dflt)"

definition DISK_WARNING :: "config \<Rightarrow> pyval" where
  "DISK_WARNING cfg = get_or_default cfg ''disk_warning'' 80"
definition DISK_CRITICAL :: "config \<Rightarrow> pyval" where
  "DISK_CRITICAL cfg = get_or_default cfg ''disk_critical'' 90"
definition MEM_WARNING :: "config \<Rightarrow> pyval" where
  "MEM_WARNING cfg = get_or_default cfg ''mem_warning'' 80"
definition MEM_CRITICAL :: "config \<Rightarrow> pyval" where
  "MEM_CRITICAL cfg = get_or_default cfg ''mem_critical'' 90"
definition SWAP_WARNING :: "config \<Rightarrow> pyval" where
  "SWAP_WARNING cfg = get_or_default cfg ''swap_warning'' 10"
definition SWAP_CRITICAL :: "config \<Rightarrow> pyval" where
  "SWAP_CRITICAL cfg = get_or_default cfg ''swap_critical'' 20"
definition MAX_ROWS :: "config \<Rightarrow> pyval" where
  "MAX_ROWS cfg = get_or_default cfg ''max_rows'' 15"
definition col_width :: "config \<Rightarrow> pyval" where
  "col_width cfg = get_or_default cfg ''col_width'' 32"

section \<open>Probes\<close>

text \<open>
  The outcome of \<open>check_output\<close>: the program is not installed (\<open>FileNotFoundError\<close>), it
  exits with a status other than zero (\<open>CalledProcessError\<close>), or it prints its output.
\<close>

datatype cmd_result = ToolMissing | ToolFailed | ToolOutput string

text \<open>An argument on which the code tests \<open>type(x) is set\<close>.\<close>

datatype 'a set_arg = IsSet "'a set" | NotSet

subsection \<open>\<open>get_mount_points\<close>\<close>

definition ignore_words :: "string list" where
  "ignore_words = [''debugfs'', ''devpts'', ''proc'', ''sysfs'', ''tmpfs'']"

text \<open>\<open>pattern.match(line)\<close> for the pattern \<open>^\s*#\<close>.\<close>

definition is_comment :: "string \<Rightarrow> bool" where
  "is_comment line = (case dropWhile py_isspace line of [] \<Rightarrow> False | c # cs \<Rightarrow> c = CHR ''#'')"

text \<open>The body of the loop over the lines of \<open>/etc/fstab\<close>, lines 265 to 269.\<close>

definition fstab_line :: "string set \<Rightarrow> string \<Rightarrow> py_error + string set" where
  "fstab_line mount_points line =
     (if \<not> is_comment line then
        (let array = split_ws line in
         if length array \<ge> 2 then
           py_bind (py_nth array 0) (\<lambda>a0.
             py_if (py_and (Inr (a0 \<notin> set ignore_words))
                      (py_bind (py_nth array 2) (\<lambda>a2. Inr (a2 \<noteq> ''swap''))))
               (py_bind (py_nth array 1) (\<lambda>a1. Inr (insert a1 mount_points)))
               (Inr mount_points))
         else Inr mount_points)
      else Inr mount_points)"

text \<open>
  \<open>get_mount_points\<close> on the lines of \<open>/etc/fstab\<close>, \<open>None\<close> when the file does not exist.
\<close>

definition get_mount_points :: "string list option \<Rightarrow> py_error + string set" where
  "get_mount_points fstab =
     (case fstab of
        None \<Rightarrow> Inr {}
      | Some lines \<Rightarrow> for_each fstab_line {} lines)"

subsection \<open>\<open>get_disk_space\<close>\<close>

text \<open>
  One value of the dictionary returned by \<open>get_disk_space\<close>: the keys \<open>'use%'\<close> and
  \<open>'available'\<close>. The dictionary itself is the list of its items in iteration order.
\<close>

record disk_entry =
  use_pct :: int
  available :: string

type_synonym disk_space = "(string \<times> disk_entry) list"

text \<open>The body of the loop over the lines of \<open>df -h\<close>, lines 293 to 298.\<close>

definition df_line :: "string set \<Rightarrow> string set \<Rightarrow> disk_space \<Rightarrow> string \<Rightarrow> py_error + disk_space" where
  "df_line mount_points exclude results line =
     (let array = split_ws line in
      py_bind (py_nth array 5) (\<lambda>a5.
        if a5 \<in> mount_points \<and> a5 \<notin> exclude then
          py_bind (py_nth array 4) (\<lambda>a4.
          py_bind (py_int_or_raise (butlast a4)) (\<lambda>use.
          py_bind (py_nth array 3) (\<lambda>a3.
            Inr (AList.update a5 \<lparr>use_pct = use, available = a3\<rparr> results))))
        else Inr results))"

text \<open>
  \<open>get_disk_space\<close> on the outcome of \<open>df -h\<close>. The dictionary \<open>results\<close> keeps the
  position of a key that is assigned again, as \<open>AList.update\<close> does. The mount points
  and the excluded ones are sets of strings, as \<open>get_mount_points\<close> and a key of the
  section \<open>disk\<close> give them.
\<close>

definition get_disk_space ::
  "string set_arg \<Rightarrow> string set \<Rightarrow> cmd_result \<Rightarrow> py_error + disk_space" where
  "get_disk_space mount_points exclude df =
     (case mount_points of
        NotSet \<Rightarrow> Inr []
      | IsSet mps \<Rightarrow>
          (case df of
             ToolMissing \<Rightarrow> Inr []
           | ToolFailed \<Rightarrow> Inl CalledProcessError
           | ToolOutput out \<Rightarrow>
               for_each (df_line mps exclude) [] (split_on CHR 0x0A (strip out))))"

subsection \<open>\<open>get_listening_ports\<close>\<close>

text \<open>
  The body of the loop over the lines of \<open>netstat -nlp\<close>, lines 343 to 351. Where the pair
  is added, \<open>proto\<close> is one of the four values of \<open>Protocol\<close>, so \<open>from_value\<close> finds a
  member.
\<close>

definition netstat_line :: "port set \<Rightarrow> string \<Rightarrow> py_error + port set" where
  "netstat_line listening_ports line =
     (let array = split_ws line in
      py_bind (py_nth array 0) (\<lambda>proto.
      py_bind (py_nth array 3) (\<lambda>a3.
        (let current_port = last (split_on CHR '':'' a3) in
         py_if (py_or (py_and (Inr (proto \<in> set [''tcp'', ''tcp6'']))
                         (py_bind (py_nth array 5) (\<lambda>a5. Inr (take 6 a5 = ''LISTEN''))))
                  (Inr (proto \<in> set [''udp'', ''udp6''])))
           (py_bind (py_int_or_raise current_port) (\<lambda>n.
              (case from_value (PStr proto) of
                 Some p \<Rightarrow> Inr (insert (n, p) listening_ports)
               | None \<Rightarrow> Inr listening_ports)))
           (Inr listening_ports)))))"

definition get_listening_ports :: "cmd_result \<Rightarrow> py_error + port set" where
  "get_listening_ports netstat =
     (case netstat of
        ToolMissing \<Rightarrow> Inr {}
      | ToolFailed \<Rightarrow> Inl CalledProcessError
      | ToolOutput out \<Rightarrow> for_each netstat_line {} (split_on CHR 0x0A (strip out)))"

subsection \<open>Lines that the probes can index\<close>

text \<open>
  A line of \<open>/etc/fstab\<close> that is a comment or does not have exactly two fields.
\<close>

definition fstab_line_ok :: "string \<Rightarrow> bool" where
  "fstab_line_ok line = (is_comment line \<or> length (split_ws line) \<noteq> 2)"

text \<open>
  A line of \<open>df -h\<close> with at least six fields and, when its mount point is selected, an
  integer before the last character of the fifth field.
\<close>

definition df_line_ok :: "string set \<Rightarrow> string set \<Rightarrow> string \<Rightarrow> bool" where
  "df_line_ok mount_points exclude line =
     (let array = split_ws line
      in 6 \<le> length array \<and>
         (array ! 5 \<in> mount_points \<and> array ! 5 \<notin> exclude \<longrightarrow>
            py_int (butlast (array ! 4)) \<noteq> None))"

text \<open>
  A line of \<open>netstat -nlp\<close> with at least four fields, six when the protocol is tcp or
  tcp6, and an integer after the last colon of the fourth field when the line is taken.
\<close>

definition netstat_line_ok :: "string \<Rightarrow> bool" where
  "netstat_line_ok line =
     (let array = split_ws line
      in 4 \<le> length array \<and>
         (array ! 0 \<in> set [''tcp'', ''tcp6''] \<longrightarrow> 6 \<le> length array) \<and>
         (array ! 0 \<in> set [''tcp'', ''tcp6''] \<and> take 6 (array ! 5) = ''LISTEN'' \<or>
          array ! 0 \<in> set [''udp'', ''udp6''] \<longrightarrow>
            py_int (last (split_on CHR '':'' (array ! 3))) \<noteq> None))"

text \<open>Inputs on which every line can be indexed.\<close>

definition fstab_plain :: "string list" where
  "fstab_plain =
     [''# /etc/fstab: static file system information.'' @ [CHR 0x0A],
      ''/dev/sda1 /home ext4 defaults 0 1'' @ [CHR 0x0A],
      ''tmpfs /tmp tmpfs defaults 0 0'' @ [CHR 0x0A],
      [CHR 0x0A]]"

definition df_plain :: string where
  "df_plain =
     ''Filesystem      Size  Used Avail Use% Mounted on'' @ [CHR 0x0A] @
     ''/dev/sda1        50G   20G   30G  40% /home'' @ [CHR 0x0A]"

definition netstat_plain :: string where
  "netstat_plain =
     ''Active Internet connections (only servers)'' @ [CHR 0x0A] @
     ''Proto Recv-Q Send-Q Local Address Foreign Address State PID/Program name'' @ [CHR 0x0A] @
     ''tcp 0 0 0.0.0.0:22 0.0.0.0:* LISTEN 812/sshd'' @ [CHR 0x0A]"

text \<open>
  The output of \<open>df -h\<close> when a device name is too long for its column: the rest of the
  entry is printed on the next line.
\<close>

definition df_wrapped :: string where
  "df_wrapped =
     ''Filesystem      Size  Used Avail Use% Mounted on'' @ [CHR 0x0A] @
     ''/dev/mapper/vg0-home'' @ [CHR 0x0A] @
     ''                 50G   20G   30G  40% /home'' @ [CHR 0x0A]"

text \<open>An output of \<open>netstat -nlp\<close> with a heading of three words.\<close>

definition netstat_ipx :: string where
  "netstat_ipx =
     ''Active Internet connections (only servers)'' @ [CHR 0x0A] @
     ''Proto Recv-Q Send-Q Local Address Foreign Address State PID/Program name'' @ [CHR 0x0A] @
     ''tcp 0 0 0.0.0.0:22 0.0.0.0:* LISTEN 812/sshd'' @ [CHR 0x0A] @
     ''Active IPX sockets'' @ [CHR 0x0A]"

subsection \<open>\<open>get_checked_ports\<close>\<close>

text \<open>
  The dictionary built by the two loops of lines 376 to 379; the second loop assigns
  after the first one.
\<close>

definition get_checked_ports :: "port set_arg \<Rightarrow> cmd_result \<Rightarrow> py_error + (port \<rightharpoonup> bool)" where
  "get_checked_ports ports_to_monitor netstat =
     (case ports_to_monitor of
        NotSet \<Rightarrow> Inr Map.empty
      | IsSet M \<Rightarrow>
          py_bind (get_listening_ports netstat) (\<lambda>listening_ports.
            (let ports_on_error = M - listening_ports;
                 ports_on_success = M - ports_on_error
             in Inr (\<lambda>p. if p \<in> ports_on_success then Some True
                          else if p \<in> ports_on_error then Some False
                          else None))))"

subsection \<open>\<open>get_checked_services\<close>\<close>

text \<open>
  The body of the loop of lines 397 to 404 for one name: \<open>pgrep\<close> gives the outcome of
  \<open>pgrep --exact s\<close>.
\<close>

definition service_state :: "(string \<Rightarrow> cmd_result) \<Rightarrow> string \<Rightarrow> bool" where
  "service_state pgrep s =
     (case pgrep s of
        ToolMissing \<Rightarrow> False
      | ToolFailed \<Rightarrow> False
      | ToolOutput out \<Rightarrow> length (split_on CHR 0x0A (strip out)) > 0)"

text \<open>
  \<open>get_checked_services\<close>: the loop runs over the module variable \<open>services_to_monitor\<close>,
  the first parameter here; the function's own argument is only tested for its type.
\<close>

definition get_checked_services ::
  "string set \<Rightarrow> (string \<Rightarrow> cmd_result) \<Rightarrow> string set_arg \<Rightarrow> (string \<rightharpoonup> bool)" where
  "get_checked_services services_to_monitor pgrep arg =
     (case arg of
        NotSet \<Rightarrow> Map.empty
      | IsSet S \<Rightarrow> (\<lambda>s. if s \<in> services_to_monitor then Some (service_state pgrep s) else None))"

section \<open>Terminal colours and severity tiers\<close>

text \<open>The class \<open>TermColor\<close>: escape sequences, \<open>\033\<close> is the character \<open>0x1B\<close>.\<close>

definition bold :: string where "bold = CHR 0x1B # ''[1m''"
definition reset :: string where "reset = CHR 0x1B # ''[0m''"
definition red :: string where "red = CHR 0x1B # ''[91m''"
definition green :: string where "green = CHR 0x1B # ''[92m''"
definition orange :: string where "orange = CHR 0x1B # ''[93m''"
definition blue :: string where "blue = CHR 0x1B # ''[94m''"

text \<open>
  The specification's severity tiers, ordered \<open>Normal < Warning < Critical\<close>, and the
  colour that the script uses for each: green, orange, red.
\<close>

datatype severity = Normal | Warning | Critical

fun sev_rank :: "severity \<Rightarrow> nat" where
  "sev_rank Normal = 0"
| "sev_rank Warning = 1"
| "sev_rank Critical = 2"

instantiation severity :: linorder
begin

definition less_eq_severity :: "severity \<Rightarrow> severity \<Rightarrow> bool" where
  "less_eq_severity a b = (sev_rank a \<le> sev_rank b)"

definition less_severity :: "severity \<Rightarrow> severity \<Rightarrow> bool" where
  "less_severity a b = (sev_rank a < sev_rank b)"

instance
proof
  fix x y z :: severity
  show "(x < y) = (x \<le> y \<and> \<not> y \<le> x)"
    by (auto simp: less_eq_severity_def less_severity_def)
  show "x \<le> x"
    by (simp add: less_eq_severity_def)
  show "x \<le> y \<Longrightarrow> y \<le> z \<Longrightarrow> x \<le> z"
    by (simp add: less_eq_severity_def)
  show "x \<le> y \<Longrightarrow> y \<le> x \<Longrightarrow> x = y"
    by (cases x; cases y) (simp_all add: less_eq_severity_def)
  show "x \<le> y \<or> y \<le> x"
    by (auto simp: less_eq_severity_def)
qed

end

fun color_of :: "severity \<Rightarrow> string" where
  "color_of Normal = green"
| "color_of Warning = orange"
| "color_of Critical = red"

section \<open>Classification of one measurement\<close>

text \<open>
  The colour chosen by \<open>add_memory_row\<close> (lines 447 to 452): red when the percentage
  reaches the critical threshold, else orange when it reaches the warning threshold,
  else green. The comparisons are Python's and may raise.
\<close>

definition row_color :: "pyval \<Rightarrow> pyval \<Rightarrow> pyval \<Rightarrow> py_error + string" where
  "row_color percent warn_threshold crit_threshold =
     py_if (py_ge percent crit_threshold) (Inr red)
       (py_if (py_ge percent warn_threshold) (Inr orange) (Inr green))"

text \<open>
  \<open>add_memory_row\<close>: the row is the colour, the formatted text and the reset sequence,
  appended to \<open>_rows\<close>. The call \<open>_format_str.format(_title, _value, _percent)\<close> is the
  parameter \<open>fmt\<close>; the rows are always a list at the five call sites.
\<close>

definition add_memory_row ::
  "(string \<Rightarrow> pyval \<Rightarrow> pyval \<Rightarrow> string) \<Rightarrow> string list \<Rightarrow> pyval \<Rightarrow> pyval \<Rightarrow>
     string \<Rightarrow> pyval \<Rightarrow> pyval \<Rightarrow> py_error + string list" where
  "add_memory_row fmt rows warn_threshold crit_threshold title val percent =
     (case row_color percent warn_threshold crit_threshold of
        Inl e \<Rightarrow> Inl e
      | Inr text_color \<Rightarrow> Inr (rows @ [text_color @ fmt title val percent @ reset]))"

text \<open>
  The colour of one partition row (lines 589 to 594), the same chain of comparisons on
  \<open>disk_space[i]['use%']\<close> with the thresholds \<open>DISK_WARNING\<close> and \<open>DISK_CRITICAL\<close>.
\<close>

definition partition_color :: "int \<Rightarrow> pyval \<Rightarrow> pyval \<Rightarrow> py_error + string" where
  "partition_color use warn crit =
     py_if (py_ge (PInt use) crit) (Inr red)
       (py_if (py_ge (PInt use) warn) (Inr orange) (Inr green))"

section \<open>Overall disk status\<close>

text \<open>One iteration of the loop of lines 510 to 515 on the current colour.\<close>

definition disk_status_step :: "pyval \<Rightarrow> pyval \<Rightarrow> string \<Rightarrow> disk_entry \<Rightarrow> py_error + string" where
  "disk_status_step warn crit color d =
     py_if (py_ge (PInt (use_pct d)) crit) (Inr red)
       (py_if (py_and (py_ge (PInt (use_pct d)) warn) (Inr (color \<noteq> red)))
          (Inr orange) (Inr color))"

fun disk_status_loop :: "pyval \<Rightarrow> pyval \<Rightarrow> string \<Rightarrow> disk_space \<Rightarrow> py_error + string" where
  "disk_status_loop w c color [] = Inr color"
| "disk_status_loop w c color ((i, d) # rest) =
     (case disk_status_step w c color d of
        Inl e \<Rightarrow> Inl e
      | Inr color' \<Rightarrow> disk_status_loop w c color' rest)"

definition disk_status_color :: "pyval \<Rightarrow> pyval \<Rightarrow> disk_space \<Rightarrow> py_error + string" where
  "disk_status_color warn crit ds =
     disk_status_loop warn crit green ds"

section \<open>Memory status\<close>

text \<open>
  The dictionary returned by \<open>get_meminfo\<close>, as the list of its items; \<open>meminfo[key]\<close>
  raises \<open>KeyError\<close> on a key that is not there.
\<close>

type_synonym meminfo = "(string \<times> int) list"

definition mem_get :: "meminfo \<Rightarrow> string \<Rightarrow> py_error + int" where
  "mem_get m key = (case map_of m key of None \<Rightarrow> Inl KeyError | Some v \<Rightarrow> Inr v)"

text \<open>\<open>int(100 - 100 * meminfo[free] / meminfo[total])\<close>, lines 526 and 533.\<close>

definition used_percent :: "meminfo \<Rightarrow> string \<Rightarrow> string \<Rightarrow> py_error + int" where
  "used_percent m free_key total_key =
     py_bind (mem_get m free_key) (\<lambda>f.
     py_bind (mem_get m total_key) (\<lambda>t.
     py_bind (true_div (100 * f) t) (\<lambda>q.
       Inr (float_to_int (int_minus_float 100 q)))))"

text \<open>\<open>int((meminfo[total] - meminfo[free]) / 1024)\<close>, lines 527 and 534.\<close>

definition used_mb :: "meminfo \<Rightarrow> string \<Rightarrow> string \<Rightarrow> py_error + int" where
  "used_mb m total_key free_key =
     py_bind (mem_get m total_key) (\<lambda>t.
     py_bind (mem_get m free_key) (\<lambda>f.
     py_bind (true_div (t - f) 1024) (\<lambda>q.
       Inr (float_to_int q))))"

text \<open>\<open>int(meminfo[key] / 1024)\<close>, lines 536, 538 and 540.\<close>

definition size_mb :: "meminfo \<Rightarrow> string \<Rightarrow> py_error + int" where
  "size_mb m key =
     py_bind (mem_get m key) (\<lambda>v.
     py_bind (true_div v 1024) (\<lambda>q.
       Inr (float_to_int q)))"

text \<open>\<open>int(100 * meminfo[key] / meminfo['MemTotal'])\<close>, lines 537, 539 and 541.\<close>

definition part_percent :: "meminfo \<Rightarrow> string \<Rightarrow> py_error + int" where
  "part_percent m key =
     py_bind (mem_get m key) (\<lambda>v.
     py_bind (mem_get m ''MemTotal'') (\<lambda>t.
     py_bind (true_div (100 * v) t) (\<lambda>q.
       Inr (float_to_int q))))"

text \<open>The variables assigned by lines 526 to 541.\<close>

record mem_values =
  mem_perc :: int
  mem_used :: int
  swap_perc :: pyval
  swap_used :: pyval
  buffers :: int
  buffers_perc :: int
  cached :: int
  cached_perc :: int
  reclaimable :: int
  reclaimable_perc :: int

text \<open>Lines 529 to 534: the two swap variables.\<close>

definition swap_values :: "meminfo \<Rightarrow> py_error + pyval \<times> pyval" where
  "swap_values m =
     py_bind (mem_get m ''SwapTotal'') (\<lambda>st.
       if st = 0 then Inr (PStr ''---'', PStr ''---'')
       else
         py_bind (used_percent m ''SwapFree'' ''SwapTotal'') (\<lambda>sp.
         py_bind (used_mb m ''SwapTotal'' ''SwapFree'') (\<lambda>su.
           Inr (PInt sp, PInt su))))"

definition memory_values :: "meminfo \<Rightarrow> py_error + mem_values" where
  "memory_values m =
     py_bind (used_percent m ''MemFree'' ''MemTotal'') (\<lambda>mp.
     py_bind (used_mb m ''MemTotal'' ''MemFree'') (\<lambda>mu.
     py_bind (swap_values m) (\<lambda>(sp, su).
     py_bind (size_mb m ''Buffers'') (\<lambda>b.
     py_bind (part_percent m ''Buffers'') (\<lambda>bp.
     py_bind (size_mb m ''Cached'') (\<lambda>c.
     py_bind (part_percent m ''Cached'') (\<lambda>cp.
     py_bind (size_mb m ''SReclaimable'') (\<lambda>r.
     py_bind (part_percent m ''SReclaimable'') (\<lambda>rp.
       Inr \<lparr>mem_perc = mp, mem_used = mu, swap_perc = sp, swap_used = su,
            buffers = b, buffers_perc = bp, cached = c, cached_perc = cp,
            reclaimable = r, reclaimable_perc = rp\<rparr>)))))))))"

text \<open>
  The condition of lines 543 and 544 with the critical thresholds, and of lines 546
  and 547 with the warning thresholds: a chain of \<open>or\<close>, evaluated from the left.
\<close>

definition any_reaches :: "mem_values \<Rightarrow> pyval \<Rightarrow> pyval \<Rightarrow> py_error + bool" where
  "any_reaches v mem_threshold swap_threshold =
     py_or (py_or (py_or (py_ge (PInt (mem_perc v)) mem_threshold)
                         (py_ge (swap_perc v) swap_threshold))
                  (py_ge (PInt (buffers_perc v)) mem_threshold))
           (py_ge (PInt (cached_perc v)) mem_threshold)"

text \<open>Lines 543 to 550: the colour of the heading of the memory column.\<close>

definition memory_status_color :: "config \<Rightarrow> mem_values \<Rightarrow> py_error + string" where
  "memory_status_color cfg v =
     py_if (any_reaches v (MEM_CRITICAL cfg) (SWAP_CRITICAL cfg)) (Inr (red @ bold))
       (py_if (any_reaches v (MEM_WARNING cfg) (SWAP_WARNING cfg)) (Inr (orange @ bold))
          (Inr (green @ bold)))"

text \<open>Lines 553 to 562: the five rows, appended to the column in this order.\<close>

definition memory_rows ::
  "(string \<Rightarrow> pyval \<Rightarrow> pyval \<Rightarrow> string) \<Rightarrow> config \<Rightarrow> mem_values \<Rightarrow> string list \<Rightarrow>
     py_error + string list" where
  "memory_rows fmt cfg v rows =
     py_bind (add_memory_row fmt rows (MEM_WARNING cfg) (MEM_CRITICAL cfg)
                ''Memory'' (PInt (mem_used v)) (PInt (mem_perc v))) (\<lambda>rows1.
     py_bind (add_memory_row fmt rows1 (SWAP_WARNING cfg) (SWAP_CRITICAL cfg)
                ''Swap'' (swap_used v) (swap_perc v)) (\<lambda>rows2.
     py_bind (add_memory_row fmt rows2 (MEM_WARNING cfg) (MEM_CRITICAL cfg)
                ''Buffers'' (PInt (buffers v)) (PInt (buffers_perc v))) (\<lambda>rows3.
     py_bind (add_memory_row fmt rows3 (MEM_WARNING cfg) (MEM_CRITICAL cfg)
                ''Cached'' (PInt (cached v)) (PInt (cached_perc v))) (\<lambda>rows4.
     add_memory_row fmt rows4 (MEM_WARNING cfg) (MEM_CRITICAL cfg)
                ''Reclaimable'' (PInt (reclaimable v)) (PInt (reclaimable_perc v))))))"

text \<open>
  Lines 525 to 564: the memory part of the script, giving \<open>memory_status_color\<close> and the
  rows of the memory column.
\<close>

definition memory_status ::
  "(string \<Rightarrow> pyval \<Rightarrow> pyval \<Rightarrow> string) \<Rightarrow> config \<Rightarrow> meminfo \<Rightarrow>
     py_error + string \<times> string list" where
  "memory_status fmt cfg m =
     (if m \<noteq> [] then
        py_bind (memory_values m) (\<lambda>v.
        py_bind (memory_status_color cfg v) (\<lambda>color.
        py_bind (memory_rows fmt cfg v []) (\<lambda>rows.
          Inr (color, rows))))
      else Inr (green @ bold, []))"

text \<open>A snapshot of \<open>/proc/meminfo\<close> on a host without swap.\<close>

definition meminfo_no_swap :: meminfo where
  "meminfo_no_swap =
     [(''MemFree'', 250), (''MemTotal'', 1000), (''SwapFree'', 0), (''SwapTotal'', 0),
      (''Buffers'', 50), (''Cached'', 100), (''SReclaimable'', 10)]"

text \<open>
  The specification's percentages, in its words: \<open>100 * (total - free) / total\<close> and
  \<open>100 * value / total\<close>, each truncated toward zero as an integer division.
\<close>

definition trunc_div :: "int \<Rightarrow> int \<Rightarrow> int" where
  "trunc_div a b = sgn a * sgn b * (\<bar>a\<bar> div \<bar>b\<bar>)"

definition used_percent_spec :: "int \<Rightarrow> int \<Rightarrow> int" where
  "used_percent_spec mem_total mem_free = trunc_div (100 * (mem_total - mem_free)) mem_total"

definition part_percent_spec :: "int \<Rightarrow> int \<Rightarrow> int" where
  "part_percent_spec val mem_total = trunc_div (100 * val) mem_total"

text \<open>
  The specification's \<open>classify\<close>, in its words: critical iff the value reaches the
  critical threshold, else warning iff it reaches the warning threshold, else normal.
\<close>

definition classify_spec :: "int \<Rightarrow> int \<Rightarrow> int \<Rightarrow> severity" where
  "classify_spec v warn crit =
     (if v \<ge> crit then Critical else if v \<ge> warn then Warning else Normal)"

chapter \<open>Properties\<close>

section \<open>What \<open>get_config\<close> stores\<close>

text \<open>The value stored under a key, section by section, the last section first.\<close>

lemma store_items_lookup:
  "store_items f items cfg k =
     (case map_of (rev items) k of Some v \<Rightarrow> Some (f v) | None \<Rightarrow> cfg k)"
proof (induction items arbitrary: cfg)
  case Nil
  show ?case by simp
next
  case (Cons x items)
  obtain a b where x: "x = (a, b)" by (cases x)
  show ?case
    by (simp add: x Cons.IH map_add_def split: option.splits)
qed

lemma store_section_lookup:
  "store_section f sections s cfg k =
     (case section_item sections s k of Some v \<Rightarrow> Some (f v) | None \<Rightarrow> cfg k)"
  by (simp add: store_section_def section_item_def store_items_lookup split: option.splits)

lemma get_config_lookup:
  "get_config (Parsed sections) k =
     (case section_item sections ''ports'' k of
        Some v \<Rightarrow> Some (port_set_setting v)
      | None \<Rightarrow>
     (case section_item sections ''services'' k of
        Some v \<Rightarrow> Some (str_set_setting v)
      | None \<Rightarrow>
     (case section_item sections ''disk'' k of
        Some v \<Rightarrow> Some (str_set_setting v)
      | None \<Rightarrow>
     (case section_item sections ''threshold'' k of
        Some v \<Rightarrow> Some (int_setting v)
      | None \<Rightarrow>
     (case section_item sections ''display'' k of
        Some v \<Rightarrow> Some (int_setting v)
      | None \<Rightarrow> None)))))"
  by (simp add: store_section_lookup split: option.splits)

section \<open>Rounding to binary64\<close>

text \<open>
  The exponent found by \<open>ilog2\<close> is the right one, and \<open>rnd\<close> is a nearest number among
  those with at most 53 significant bits and an exponent of at least \<open>-1074\<close>. Hence
  \<open>rnd\<close> keeps such a number, and stays on the same side of it as its argument.
\<close>

lemma two_powi_less_iff: "(2::rat) powi a < 2 powi b \<longleftrightarrow> a < b"
proof
  assume l: "(2::rat) powi a < 2 powi b"
  show "a < b"
  proof (rule ccontr)
    assume "\<not> a < b"
    then have "b \<le> a" by simp
    then have "(2::rat) powi b \<le> 2 powi a" by (rule power_int_increasing) simp
    with l show False by simp
  qed
next
  assume "a < b"
  then show "(2::rat) powi a < 2 powi b" by (rule power_int_strict_increasing) simp
qed

lemma ilog2_bounds:
  assumes "0 < x"
  shows "2 powi (ilog2 x) \<le> x \<and> x < 2 powi (ilog2 x + 1)"
proof -
  obtain p q where pq: "quotient_of x = (p, q)" by (cases "quotient_of x")
  then have q: "0 < q" by (rule quotient_of_denom_pos)
  from pq have x: "x = of_int p / of_int q" by (rule quotient_of_div)
  with assms q have p: "0 < p" by (simp add: zero_less_divide_iff)
  define a where "a = bitlen p"
  define b where "b = bitlen q"
  from p have a1: "1 \<le> a" unfolding a_def by (simp add: bitlen_alt_def)
  from q have b1: "1 \<le> b" unfolding b_def by (simp add: bitlen_alt_def)
  from bitlen_bounds [OF p] have "(2::int) ^ nat (a - 1) \<le> p" "p < 2 ^ nat a"
    by (simp_all add: a_def)
  then have "(of_int ((2::int) ^ nat (a - 1)) :: rat) \<le> of_int p" "(of_int p :: rat) < of_int (2 ^ nat a)"
    by (simp_all only: of_int_le_iff of_int_less_iff)
  then have pa: "(2::rat) powi (a - 1) \<le> of_int p" "(of_int p :: rat) < 2 powi a"
    using a1 by (simp_all add: power_int_def)
  from bitlen_bounds [OF q] have "(2::int) ^ nat (b - 1) \<le> q" "q < 2 ^ nat b"
    by (simp_all add: b_def)
  then have "(of_int ((2::int) ^ nat (b - 1)) :: rat) \<le> of_int q" "(of_int q :: rat) < of_int (2 ^ nat b)"
    by (simp_all only: of_int_le_iff of_int_less_iff)
  then have qb: "(2::rat) powi (b - 1) \<le> of_int q" "(of_int q :: rat) < 2 powi b"
    using b1 by (simp_all add: power_int_def)
  have qpos: "(0::rat) < of_int q" using q by simp
  have ppos: "(0::rat) < of_int p" using p by simp
  have up: "x < 2 powi (a - b + 1)"
  proof -
    have "x * of_int q = of_int p" using x qpos by simp
    also have "\<dots> < 2 powi a" by (rule pa)
    also have "\<dots> = 2 powi (a - b + 1) * 2 powi (b - 1)"
      by (simp add: power_int_add [symmetric])
    also have "\<dots> \<le> 2 powi (a - b + 1) * of_int q"
      using qb(1) by (simp add: mult_left_mono)
    finally show ?thesis using qpos by simp
  qed
  have lo: "2 powi (a - b - 1) < x"
  proof -
    have "(2::rat) powi (a - b - 1) * of_int q < 2 powi (a - b - 1) * 2 powi b"
      using qb(2) by (simp add: mult_strict_left_mono)
    also have "\<dots> = 2 powi (a - 1)"
      by (simp add: power_int_add [symmetric])
    also have "\<dots> \<le> of_int p" by (rule pa)
    also have "\<dots> = x * of_int q" using x qpos by simp
    finally show ?thesis using qpos by simp
  qed
  have il: "ilog2 x = (if 2 powi (a - b) \<le> x then a - b else a - b - 1)"
    by (simp add: ilog2_def pq a_def b_def)
  show ?thesis
  proof (cases "2 powi (a - b) \<le> x")
    case True
    with il up show ?thesis by simp
  next
    case False
    with il lo show ?thesis by simp
  qed
qed

lemma ilog2_unique:
  assumes "0 < x" "2 powi e \<le> x" "x < 2 powi (e + 1)"
  shows "ilog2 x = e"
proof -
  from ilog2_bounds [OF assms(1)] have b: "2 powi (ilog2 x) \<le> x" "x < 2 powi (ilog2 x + 1)"
    by simp_all
  from b(1) assms(3) have "(2::rat) powi (ilog2 x) < 2 powi (e + 1)" by simp
  then have "ilog2 x < e + 1" by (simp only: two_powi_less_iff)
  moreover from assms(2) b(2) have "(2::rat) powi e < 2 powi (ilog2 x + 1)" by simp
  then have "e < ilog2 x + 1" by (simp only: two_powi_less_iff)
  ultimately show ?thesis by simp
qed

lemma round_half_even_nearest:
  "\<bar>of_int (round_half_even z) - z\<bar> \<le> \<bar>of_int n - z\<bar>"
proof -
  define f where "f = \<lfloor>z\<rfloor>"
  define r where "r = z - of_int f"
  have r: "0 \<le> r" "r < 1" unfolding r_def f_def by linarith+
  have z: "z = of_int f + r" by (simp add: r_def)
  consider "n \<le> f" | "f + 1 \<le> n" by linarith
  then have far: "\<bar>of_int n - z\<bar> \<ge> r \<or> \<bar>of_int n - z\<bar> \<ge> 1 - r"
      and lo: "n \<le> f \<Longrightarrow> \<bar>of_int n - z\<bar> \<ge> r"
      and hi: "f + 1 \<le> n \<Longrightarrow> \<bar>of_int n - z\<bar> \<ge> 1 - r"
  proof -
    have a: "\<bar>of_int n - z\<bar> \<ge> r" if "n \<le> f"
    proof -
      from that have "(of_int n :: rat) \<le> of_int f" by simp
      then show ?thesis using r by (simp add: z)
    qed
    have b: "\<bar>of_int n - z\<bar> \<ge> 1 - r" if "f + 1 \<le> n"
    proof -
      from that have "(of_int (f + 1) :: rat) \<le> of_int n" by (simp only: of_int_le_iff)
      then show ?thesis using r by (simp add: z)
    qed
    show "n \<le> f \<Longrightarrow> \<bar>of_int n - z\<bar> \<ge> r" by (rule a)
    show "f + 1 \<le> n \<Longrightarrow> \<bar>of_int n - z\<bar> \<ge> 1 - r" by (rule b)
    show "\<bar>of_int n - z\<bar> \<ge> r \<or> \<bar>of_int n - z\<bar> \<ge> 1 - r"
      using a b by linarith
  qed
  have rhe: "round_half_even z = (if r < 1 / 2 then f else if 1 / 2 < r then f + 1
         else if even f then f else f + 1)"
    by (simp add: round_half_even_def f_def r_def Let_def)
  have down: "\<bar>of_int f - z\<bar> = r" using r by (simp add: z)
  have up: "\<bar>of_int (f + 1) - z\<bar> = 1 - r" using r by (simp add: z)
  consider "r < 1 / 2" | "1 / 2 < r" | "r = 1 / 2" by linarith
  then show ?thesis
  proof cases
    case 1
    then have "round_half_even z = f" by (simp add: rhe)
    with down have "\<bar>of_int (round_half_even z) - z\<bar> = r" by simp
    with far 1 show ?thesis by linarith
  next
    case 2
    then have "round_half_even z = f + 1" by (simp add: rhe)
    with up have "\<bar>of_int (round_half_even z) - z\<bar> = 1 - r" by simp
    with far 2 show ?thesis by linarith
  next
    case 3
    then have "round_half_even z = f \<or> round_half_even z = f + 1" by (simp add: rhe)
    with down up have "\<bar>of_int (round_half_even z) - z\<bar> = r \<or>
        \<bar>of_int (round_half_even z) - z\<bar> = 1 - r" by auto
    with far 3 show ?thesis by linarith
  qed
qed

lemma round_half_even_eq:
  assumes "\<bar>z - of_int n\<bar> < 1 / 2"
  shows "round_half_even z = n"
proof -
  from round_half_even_nearest [of z n] assms
  have "\<bar>(of_int (round_half_even z) :: rat) - of_int n\<bar> < 1" by linarith
  then have "\<bar>(of_int (round_half_even z - n) :: rat)\<bar> < 1" by simp
  then have "\<bar>round_half_even z - n\<bar> < 1"
    by (metis of_int_abs of_int_less_iff of_int_1)
  then show ?thesis by simp
qed

lemma ulp_pos: "0 < ulp x"
  by (simp add: ulp_def)

lemma rnd_nearest_grid:
  "\<bar>rnd x - x\<bar> \<le> \<bar>of_int n * ulp x - x\<bar>"
proof (cases "x = 0")
  case True
  then show ?thesis by (simp add: rnd_def)
next
  case False
  define u where "u = ulp x"
  have u: "0 < u" by (simp add: u_def ulp_pos)
  define z where "z = \<bar>x\<bar> / u"
  define R where "R = round_half_even z"
  have ax: "\<bar>x\<bar> = z * u" using u by (simp add: z_def)
  have rn: "rnd x = sgn x * of_int R * u"
    using False by (simp add: rnd_def R_def z_def u_def)
  show ?thesis
  proof (cases "0 < x")
    case True
    then have x: "x = z * u" using ax by simp
    have "\<bar>rnd x - x\<bar> = \<bar>of_int R - z\<bar> * u"
    proof -
      have "rnd x - x = (of_int R - z) * u" using True rn x by (simp add: algebra_simps)
      then show ?thesis using u by (simp add: abs_mult)
    qed
    moreover have "\<bar>of_int n * u - x\<bar> = \<bar>of_int n - z\<bar> * u"
    proof -
      have "of_int n * u - x = (of_int n - z) * u" using x by (simp add: algebra_simps)
      then show ?thesis using u by (simp add: abs_mult)
    qed
    moreover have "\<bar>of_int R - z\<bar> \<le> \<bar>of_int n - z\<bar>"
      unfolding R_def by (rule round_half_even_nearest)
    ultimately show ?thesis using u by (simp add: u_def mult_right_mono)
  next
    case neg: False
    with False have xn: "x < 0" by simp
    then have x: "x = - (z * u)" using ax by simp
    have "\<bar>rnd x - x\<bar> = \<bar>of_int R - z\<bar> * u"
    proof -
      have "rnd x - x = - ((of_int R - z) * u)" using xn rn x by (simp add: algebra_simps)
      then show ?thesis using u by (simp add: abs_mult)
    qed
    moreover have "\<bar>of_int n * u - x\<bar> = \<bar>of_int (- n) - z\<bar> * u"
    proof -
      have "of_int n * u - x = - ((of_int (- n) - z) * u)" using x by (simp add: algebra_simps)
      then show ?thesis using u by (simp add: abs_mult)
    qed
    moreover have "\<bar>of_int R - z\<bar> \<le> \<bar>of_int (- n) - z\<bar>"
      unfolding R_def by (rule round_half_even_nearest)
    ultimately show ?thesis using u by (simp add: u_def mult_right_mono)
  qed
qed

lemma rnd_nearest:
  assumes m: "\<bar>m\<bar> < 2 ^ 53" and e: "- 1074 \<le> e"
  shows "\<bar>rnd x - x\<bar> \<le> \<bar>of_int m * 2 powi e - x\<bar>"
proof (cases "x = 0")
  case True
  then show ?thesis by (simp add: rnd_def)
next
  case False
  define l where "l = ilog2 \<bar>x\<bar>"
  define E where "E = max l (- 1022) - 52"
  have u: "ulp x = 2 powi E" by (simp add: ulp_def E_def l_def)
  from False have ax: "0 < \<bar>x\<bar>" by simp
  show ?thesis
  proof (cases "E \<le> e")
    case True
    define n where "n = m * 2 ^ nat (e - E)"
    have "(2::rat) powi e = 2 powi (e - E) * 2 powi E"
      by (simp add: power_int_add [symmetric])
    also have "(2::rat) powi (e - E) = 2 ^ nat (e - E)"
      using True by (simp add: power_int_def)
    finally have "of_int m * (2::rat) powi e = of_int n * ulp x"
      by (simp add: n_def u)
    then show ?thesis using rnd_nearest_grid [of x n] by simp
  next
    case False
    then have eE: "e < E" by simp
    with e have "- 1074 < E" by simp
    then have El: "E = l - 52" and l: "- 1022 < l" by (simp_all add: E_def max_def split: if_splits)
    from ilog2_bounds [OF ax] have lx: "2 powi l \<le> \<bar>x\<bar>" by (simp add: l_def)
    have "\<bar>of_int m * (2::rat) powi e\<bar> = of_int \<bar>m\<bar> * 2 powi e"
      by (simp add: abs_mult)
    also have "\<dots> < 2 ^ 53 * 2 powi e"
    proof -
      from m have "(of_int \<bar>m\<bar> :: rat) < of_int (2 ^ 53)" by (simp only: of_int_less_iff)
      then show ?thesis by (simp add: mult_strict_right_mono)
    qed
    also have "\<dots> = 2 powi (53 + e)"
      by (simp add: power_int_add)
    also have "\<dots> \<le> 2 powi l"
      by (rule power_int_increasing) (use eE El in simp_all)
    finally have y: "\<bar>of_int m * (2::rat) powi e\<bar> < 2 powi l" .
    have g: "of_int (if 0 < x then 2 ^ 52 else - (2 ^ 52)) * ulp x = sgn x * 2 powi l"
    proof -
      have "(2::rat) powi l = 2 powi (52 + (l - 52))" by simp
      also have "\<dots> = 2 powi 52 * 2 powi (l - 52)"
        by (rule power_int_add) simp
      finally have "(2::rat) powi l = 2 ^ 52 * 2 powi (l - 52)" by simp
      then show ?thesis using \<open>x \<noteq> 0\<close> by (simp add: u El sgn_if)
    qed
    have "\<bar>rnd x - x\<bar> \<le> \<bar>sgn x * 2 powi l - x\<bar>"
      using rnd_nearest_grid [of x "if 0 < x then 2 ^ 52 else - (2 ^ 52)"] by (simp only: g)
    also have "\<dots> = \<bar>x\<bar> - 2 powi l"
      using lx \<open>x \<noteq> 0\<close> by (simp add: sgn_if split: if_splits)
    also have "\<dots> \<le> \<bar>of_int m * 2 powi e - x\<bar>"
      using y by linarith
    finally show ?thesis .
  qed
qed

lemma rnd_representable:
  assumes "\<bar>m\<bar> < 2 ^ 53" and "- 1074 \<le> e"
  shows "rnd (of_int m * 2 powi e) = of_int m * 2 powi e"
  using rnd_nearest [OF assms, of "of_int m * 2 powi e"] by simp

lemma rnd_le:
  assumes "\<bar>m\<bar> < 2 ^ 53" and "- 1074 \<le> e" and "x \<le> of_int m * 2 powi e"
  shows "rnd x \<le> of_int m * 2 powi e"
  using rnd_nearest [OF assms(1,2), of x] assms(3) by linarith

lemma rnd_ge:
  assumes "\<bar>m\<bar> < 2 ^ 53" and "- 1074 \<le> e" and "of_int m * 2 powi e \<le> x"
  shows "of_int m * 2 powi e \<le> rnd x"
  using rnd_nearest [OF assms(1,2), of x] assms(3) by linarith

lemma rnd_int:
  assumes "\<bar>n\<bar> < 2 ^ 53"
  shows "rnd (of_int n) = of_int n"
  using rnd_representable [OF assms, of 0] by simp

lemma rnd_le_int:
  assumes "\<bar>n\<bar> < 2 ^ 53" and "x \<le> of_int n"
  shows "rnd x \<le> of_int n"
  using rnd_le [OF assms(1), of 0 x] assms(2) by simp

lemma rnd_ge_int:
  assumes "\<bar>n\<bar> < 2 ^ 53" and "of_int n \<le> x"
  shows "of_int n \<le> rnd x"
  using rnd_ge [OF assms(1), of 0 x] assms(2) by simp

lemma DBL_MAX_ge: "1000 \<le> DBL_MAX"
proof -
  have "(1::rat) \<le> 2 ^ 971" by (rule one_le_power) simp
  then have "(2 ^ 53 - 1) * (1::rat) \<le> (2 ^ 53 - 1) * 2 ^ 971"
    by (rule mult_left_mono) simp
  then show ?thesis by (simp add: DBL_MAX_def)
qed

lemma true_div_bounded:
  assumes "b \<noteq> 0" and "\<bar>rnd (of_int a / of_int b)\<bar> \<le> 1000"
  shows "true_div a b = Inr (rnd (of_int a / of_int b))"
  using assms DBL_MAX_ge by (simp add: true_div_def Let_def)

lemma div_bounds:
  fixes a t :: int
  assumes "0 < t"
  shows "(a div t) * t \<le> a" and "a < (a div t + 1) * t"
proof -
  have "a = (a div t) * t + a mod t" by simp
  moreover have "0 \<le> a mod t" "a mod t < t" using assms by simp_all
  ultimately show "(a div t) * t \<le> a" by linarith
  have "(a div t + 1) * t = (a div t) * t + t" by (simp add: algebra_simps)
  with \<open>a = (a div t) * t + a mod t\<close> \<open>a mod t < t\<close> show "a < (a div t + 1) * t" by linarith
qed

lemma quotient_bounds:
  fixes a t :: int
  assumes t: "0 < t" "t \<le> 2 ^ 46"
  defines "N \<equiv> a div t"
  defines "w \<equiv> (of_int a / of_int t :: rat)"
  shows "of_int N \<le> w" and "w \<le> of_int N + 1 - 1 / 2 ^ 46"
proof -
  have tp: "(0::rat) < of_int t" using t by simp
  from div_bounds [OF t(1), of a] have lo: "N * t \<le> a" and hi: "a + 1 \<le> (N + 1) * t"
    by (simp_all add: N_def)
  from lo have "(of_int (N * t) :: rat) \<le> of_int a" by (simp only: of_int_le_iff)
  then have "of_int N * of_int t \<le> (of_int a :: rat)" by simp
  then show "of_int N \<le> w" using tp by (simp add: w_def pos_le_divide_eq)
  from hi have "(of_int (a + 1) :: rat) \<le> of_int ((N + 1) * t)" by (simp only: of_int_le_iff)
  then have "(of_int a :: rat) + 1 \<le> (of_int N + 1) * of_int t" by simp
  then have "w + 1 / of_int t \<le> of_int N + 1"
    using tp by (simp add: w_def field_simps)
  moreover have "(1::rat) / 2 ^ 46 \<le> 1 / of_int t"
  proof -
    from t(2) have "(of_int t :: rat) \<le> of_int (2 ^ 46)" by (simp only: of_int_le_iff)
    then have "(of_int t :: rat) \<le> 2 ^ 46" by simp
    with tp show ?thesis by (simp add: frac_le)
  qed
  ultimately show "w \<le> of_int N + 1 - 1 / 2 ^ 46" by linarith
qed

lemma grid46: "of_int m * (2::rat) powi (- 46) = of_int m / 2 ^ 46"
  by (simp add: power_int_minus field_simps)

lemma floor_between:
  fixes x :: rat
  assumes "of_int N \<le> x" "x < of_int N + 1"
  shows "\<lfloor>x\<rfloor> = N"
  using assms by linarith

lemma part_percent_value:
  assumes t: "0 < t" "t \<le> 2 ^ 46" and v: "0 \<le> v" "v \<le> t"
  shows "\<exists>q. true_div (100 * v) t = Inr q \<and> float_to_int q = (100 * v) div t"
proof -
  define N where "N = (100 * v) div t"
  define w where "w = (of_int (100 * v) / of_int t :: rat)"
  have N0: "0 \<le> N" using t v by (simp add: N_def pos_imp_zdiv_nonneg_iff)
  have N100: "N \<le> 100"
  proof -
    have "100 * v \<le> 100 * t" using v by simp
    then have "(100 * v) div t \<le> (100 * t) div t" by (rule zdiv_mono1) (rule t(1))
    then show ?thesis using t by (simp add: N_def)
  qed
  from quotient_bounds [OF t, of "100 * v"]
  have lo: "of_int N \<le> w" and hi: "w \<le> of_int N + 1 - 1 / 2 ^ 46"
    by (simp_all add: N_def w_def)
  have m: "\<bar>(N + 1) * 2 ^ 46 - 1\<bar> < (2::int) ^ 53" using N0 N100 by simp
  have c: "of_int ((N + 1) * 2 ^ 46 - 1) * (2::rat) powi (- 46) = of_int N + 1 - 1 / 2 ^ 46"
    by (simp add: grid46 field_simps)
  have up: "rnd w \<le> of_int N + 1 - 1 / 2 ^ 46"
    using rnd_le [OF m, of "- 46" w] hi by (simp only: c)
  have dn: "of_int N \<le> rnd w"
    by (rule rnd_ge_int) (use N0 N100 lo in simp_all)
  have "\<bar>rnd w\<bar> \<le> 1000"
  proof -
    have "(of_int N :: rat) \<le> 100" "(0 :: rat) \<le> of_int N" using N0 N100 by simp_all
    with up dn show ?thesis by simp
  qed
  then have "true_div (100 * v) t = Inr (rnd w)"
    unfolding w_def using t by (intro true_div_bounded) simp_all
  moreover have "float_to_int (rnd w) = N"
  proof -
    have "0 \<le> rnd w" using dn N0 by simp
    moreover have "\<lfloor>rnd w\<rfloor> = N" by (rule floor_between) (use up dn in simp_all)
    ultimately show ?thesis by (simp add: float_to_int_def)
  qed
  ultimately show ?thesis by (simp add: N_def)
qed

lemma used_percent_value:
  assumes t: "0 < t" "t \<le> 2 ^ 46" and f: "0 \<le> f" "f \<le> t"
  shows "\<exists>q. true_div (100 * f) t = Inr q \<and>
           float_to_int (int_minus_float 100 q) = (100 * (t - f)) div t"
proof -
  define N where "N = (100 * (t - f)) div t"
  define w where "w = (of_int (100 * (t - f)) / of_int t :: rat)"
  define q where "q = (of_int (100 * f) / of_int t :: rat)"
  have tp: "(0::rat) < of_int t" using t by simp
  have qw: "q = 100 - w" using tp by (simp add: q_def w_def field_simps)
  have N0: "0 \<le> N" using t f by (simp add: N_def pos_imp_zdiv_nonneg_iff)
  have N100: "N \<le> 100"
  proof -
    have "100 * (t - f) \<le> 100 * t" using f by simp
    then have "(100 * (t - f)) div t \<le> (100 * t) div t" by (rule zdiv_mono1) (rule t(1))
    then show ?thesis using t by (simp add: N_def)
  qed
  from quotient_bounds [OF t, of "100 * (t - f)"]
  have lo: "of_int N \<le> w" and hi: "w \<le> of_int N + 1 - 1 / 2 ^ 46"
    by (simp_all add: N_def w_def)
  \<comment> \<open>the quotient and its rounding\<close>
  have m1: "\<bar>(99 - N) * 2 ^ 46 + 1\<bar> < (2::int) ^ 53" using N0 N100 by simp
  have c1: "of_int ((99 - N) * 2 ^ 46 + 1) * (2::rat) powi (- 46) = 99 - of_int N + 1 / 2 ^ 46"
    by (simp add: grid46 field_simps)
  have q_lo: "99 - of_int N + 1 / 2 ^ 46 \<le> rnd q"
    using rnd_ge [OF m1, of "- 46" q] hi by (simp only: c1) (simp add: qw)
  have q_hi: "rnd q \<le> of_int (100 - N)"
    by (rule rnd_le_int) (use N0 N100 lo qw in simp_all)
  have "\<bar>rnd q\<bar> \<le> 1000"
  proof -
    have "(of_int N :: rat) \<le> 100" "(0 :: rat) \<le> of_int N" using N0 N100 by simp_all
    with q_lo q_hi show ?thesis by simp
  qed
  then have td: "true_div (100 * f) t = Inr (rnd q)"
    unfolding q_def using t by (intro true_div_bounded) simp_all
  \<comment> \<open>the difference and its rounding\<close>
  define y where "y = 100 - rnd q"
  have y_lo: "of_int N \<le> y" using q_hi by (simp add: y_def)
  have y_hi: "y \<le> of_int N + 1 - 1 / 2 ^ 46" using q_lo by (simp add: y_def)
  have m2: "\<bar>(N + 1) * 2 ^ 46 - 1\<bar> < (2::int) ^ 53" using N0 N100 by simp
  have c2: "of_int ((N + 1) * 2 ^ 46 - 1) * (2::rat) powi (- 46) = of_int N + 1 - 1 / 2 ^ 46"
    by (simp add: grid46 field_simps)
  have up: "rnd y \<le> of_int N + 1 - 1 / 2 ^ 46"
    using rnd_le [OF m2, of "- 46" y] y_hi by (simp only: c2)
  have dn: "of_int N \<le> rnd y"
    by (rule rnd_ge_int) (use N0 N100 y_lo in simp_all)
  have "float_to_int (rnd y) = N"
  proof -
    have "0 \<le> rnd y" using dn N0 by simp
    moreover have "\<lfloor>rnd y\<rfloor> = N" by (rule floor_between) (use up dn in simp_all)
    ultimately show ?thesis by (simp add: float_to_int_def)
  qed
  then have "float_to_int (int_minus_float 100 (rnd q)) = N"
    by (simp add: int_minus_float_def y_def)
  with td show ?thesis by (simp add: N_def)
qed

lemma trunc_div_nonneg: "0 \<le> a \<Longrightarrow> 0 < b \<Longrightarrow> trunc_div a b = a div b"
  by (cases "a = 0") (simp_all add: trunc_div_def)

lemma true_div_exact:
  assumes "b \<noteq> 0" and "of_int a / of_int b = (of_int m * 2 powi e :: rat)"
    and "\<bar>m\<bar> < 2 ^ 53" and "- 1074 \<le> e" and "\<bar>of_int a / of_int b :: rat\<bar> \<le> 1000"
  shows "true_div a b = Inr (of_int a / of_int b)"
proof -
  have "rnd (of_int a / of_int b) = of_int a / of_int b"
    using rnd_representable [OF assms(3,4)] by (simp add: assms(2))
  with assms(1,5) show ?thesis by (simp add: true_div_bounded)
qed

section \<open>Memory status without swap\<close>

lemma true_div_examples:
  "true_div 750 1024 = Inr (375 / 512)"
  "true_div 50 1024 = Inr (25 / 512)"
  "true_div 100 1024 = Inr (25 / 256)"
  "true_div 10 1024 = Inr (5 / 512)"
  "true_div 25000 1000 = Inr 25"
  "true_div 5000 1000 = Inr 5"
  "true_div 10000 1000 = Inr 10"
  "true_div 1000 1000 = Inr 1"
proof -
  show "true_div 750 1024 = Inr (375 / 512)"
    using true_div_exact [of 1024 750 375 "- 9"] by (simp add: power_int_minus)
  show "true_div 50 1024 = Inr (25 / 512)"
    using true_div_exact [of 1024 50 25 "- 9"] by (simp add: power_int_minus)
  show "true_div 100 1024 = Inr (25 / 256)"
    using true_div_exact [of 1024 100 25 "- 8"] by (simp add: power_int_minus)
  show "true_div 10 1024 = Inr (5 / 512)"
    using true_div_exact [of 1024 10 5 "- 9"] by (simp add: power_int_minus)
  show "true_div 25000 1000 = Inr 25"
    using true_div_exact [of 1000 25000 25 0] by simp
  show "true_div 5000 1000 = Inr 5"
    using true_div_exact [of 1000 5000 5 0] by simp
  show "true_div 10000 1000 = Inr 10"
    using true_div_exact [of 1000 10000 10 0] by simp
  show "true_div 1000 1000 = Inr 1"
    using true_div_exact [of 1000 1000 1 0] by simp
qed

lemma no_swap_get:
  "mem_get meminfo_no_swap ''MemFree'' = Inr 250"
  "mem_get meminfo_no_swap ''MemTotal'' = Inr 1000"
  "mem_get meminfo_no_swap ''SwapTotal'' = Inr 0"
  "mem_get meminfo_no_swap ''Buffers'' = Inr 50"
  "mem_get meminfo_no_swap ''Cached'' = Inr 100"
  "mem_get meminfo_no_swap ''SReclaimable'' = Inr 10"
  by (simp_all add: mem_get_def meminfo_no_swap_def)

lemma no_swap_values:
  "memory_values meminfo_no_swap =
    Inr \<lparr>mem_perc = 75, mem_used = 0, swap_perc = PStr ''---'', swap_used = PStr ''---'',
         buffers = 0, buffers_perc = 5, cached = 0, cached_perc = 10,
         reclaimable = 0, reclaimable_perc = 1\<rparr>"
proof -
  have r75: "rnd 75 = 75" using rnd_int [of 75] by simp
  have fl: "\<lfloor>(375::rat) / 512\<rfloor> = 0" "\<lfloor>(25::rat) / 512\<rfloor> = 0"
    "\<lfloor>(25::rat) / 256\<rfloor> = 0" "\<lfloor>(5::rat) / 512\<rfloor> = 0"
    by (simp_all add: floor_unique)
  show ?thesis
    by (simp add: memory_values_def used_percent_def used_mb_def swap_values_def size_mb_def
          part_percent_def no_swap_get true_div_examples py_bind_def int_minus_float_def
          float_to_int_def r75 fl)
qed

lemma get_config_not_str: "get_config ini k \<noteq> Some (PStr s)"
proof (cases ini)
  case (Parsed sections)
  show ?thesis
    unfolding Parsed
    by (simp only: get_config_lookup)
       (simp add: int_setting_def str_set_setting_def port_set_setting_def
          split: option.splits sum.splits)
qed simp_all

lemma get_or_default_not_str: "get_or_default (get_config ini) k d \<noteq> PStr s"
  using get_config_not_str [of ini k]
  by (auto simp: get_or_default_def Let_def split: option.splits simp del: get_config.simps)

lemma py_ge_str_raises:
  assumes "\<And>s'. t \<noteq> PStr s'"
  shows "py_ge (PStr s) t = Inl TypeError"
  using assms by (cases t) auto

lemma py_ge_error: "py_ge a b = Inl e \<Longrightarrow> e = TypeError"
  by (cases a; cases b) simp_all

lemma row_color_error: "row_color p w c = Inl e \<Longrightarrow> e = TypeError"
  by (auto simp: row_color_def py_if_def split: sum.splits if_splits dest: py_ge_error)

lemma any_reaches_error: "any_reaches v a b = Inl e \<Longrightarrow> e = TypeError"
  by (auto simp: any_reaches_def py_or_def py_if_def split: sum.splits if_splits dest: py_ge_error)

lemma memory_status_color_error: "memory_status_color cfg v = Inl e \<Longrightarrow> e = TypeError"
  by (auto simp: memory_status_color_def py_if_def split: sum.splits if_splits
        dest: any_reaches_error)

lemma swap_row_raises:
  assumes "swap_perc v = PStr s"
  shows "memory_rows fmt (get_config ini) v rows = Inl TypeError"
proof -
  have sc: "py_ge (PStr s) (SWAP_CRITICAL (get_config ini)) = Inl TypeError"
    unfolding SWAP_CRITICAL_def by (rule py_ge_str_raises) (rule get_or_default_not_str)
  have row2: "add_memory_row fmt r (SWAP_WARNING (get_config ini)) (SWAP_CRITICAL (get_config ini))
      ''Swap'' (swap_used v) (swap_perc v) = Inl TypeError" for r
    by (simp add: add_memory_row_def row_color_def py_if_def assms sc del: get_config.simps)
  show ?thesis
  proof (cases "add_memory_row fmt rows (MEM_WARNING (get_config ini)) (MEM_CRITICAL (get_config ini))
      ''Memory'' (PInt (mem_used v)) (PInt (mem_perc v))")
    case (Inl e)
    then have "e = TypeError"
      by (auto simp: add_memory_row_def split: sum.splits dest: row_color_error)
    with Inl show ?thesis by (simp add: memory_rows_def py_bind_def del: get_config.simps)
  next
    case (Inr rows1)
    then show ?thesis by (simp add: memory_rows_def py_bind_def row2 del: get_config.simps)
  qed
qed

lemma swap_values_zero:
  assumes "mem_get m ''SwapTotal'' = Inr 0"
  shows "swap_values m = Inr (PStr ''---'', PStr ''---'')"
  using assms by (simp add: swap_values_def py_bind_def)

lemma memory_values_swap:
  assumes "memory_values m = Inr v" and "swap_values m = Inr (sp, su)"
  shows "swap_perc v = sp"
  using assms
  by (auto simp: memory_values_def py_bind_def split: sum.splits)

lemma no_swap_always_raises:
  assumes "mem_get m ''SwapTotal'' = Inr 0" and "memory_values m = Inr v"
  shows "memory_status fmt (get_config ini) m = Inl TypeError"
proof -
  have sp: "swap_perc v = PStr ''---''"
    using memory_values_swap [OF assms(2) swap_values_zero [OF assms(1)]] .
  have ne: "m \<noteq> []" using assms(1) by (auto simp: mem_get_def)
  show ?thesis
  proof (cases "memory_status_color (get_config ini) v")
    case (Inl e)
    then have "e = TypeError" by (rule memory_status_color_error)
    with Inl show ?thesis
      by (simp add: memory_status_def ne assms(2) py_bind_def del: get_config.simps)
  next
    case (Inr c)
    then show ?thesis
      by (simp add: memory_status_def ne assms(2) py_bind_def swap_row_raises [OF sp]
            del: get_config.simps)
  qed
qed

text \<open>
  Claim C1 at the snapshot \<open>meminfo_no_swap\<close> with the default thresholds: \<open>SwapTotal\<close> is
  zero, the swap percentage is the placeholder \<open>'---'\<close>, no division by zero occurs, and
  the comparison of the placeholder with the integer threshold raises \<open>TypeError\<close>, so
  the memory part of the script does not complete. (By \<open>no_swap_always_raises\<close> this is
  so for every snapshot with \<open>SwapTotal = 0\<close> and every configuration file.)
\<close>

theorem swap_total_zero_raises:
  "mem_get meminfo_no_swap ''SwapTotal'' = Inr 0 \<and>
   swap_values meminfo_no_swap = Inr (PStr ''---'', PStr ''---'') \<and>
   py_ge (PStr ''---'') (SWAP_CRITICAL (get_config NoFile)) = Inl TypeError \<and>
   memory_status fmt (get_config NoFile) meminfo_no_swap = Inl TypeError"
proof -
  have a: "mem_get meminfo_no_swap ''SwapTotal'' = Inr 0" by (rule no_swap_get)
  have b: "swap_values meminfo_no_swap = Inr (PStr ''---'', PStr ''---'')"
    by (rule swap_values_zero [OF a])
  have c: "py_ge (PStr ''---'') (SWAP_CRITICAL (get_config NoFile)) = Inl TypeError"
    by (simp add: SWAP_CRITICAL_def get_or_default_def)
  have d: "memory_status fmt (get_config NoFile) meminfo_no_swap = Inl TypeError"
    by (rule no_swap_always_raises [OF a no_swap_values])
  show ?thesis by (intro conjI) (rule a b c d)+
qed

section \<open>Probes on malformed input\<close>

lemma for_each_returns:
  assumes "\<And>s x. x \<in> set xs \<Longrightarrow> \<exists>s'. body s x = Inr s'"
  shows "\<exists>r. for_each body s xs = Inr r"
  using assms
proof (induction xs arbitrary: s)
  case Nil
  show ?case by simp
next
  case (Cons x xs)
  from Cons.prems [of x s] obtain s' where s': "body s x = Inr s'" by auto
  from Cons.IH [of s'] Cons.prems obtain r where "for_each body s' xs = Inr r" by auto
  with s' show ?case by simp
qed

lemma py_bind_Inr: "py_bind (Inr x) f = f x"
  by (simp add: py_bind_def)

lemma fstab_line_returns:
  assumes "fstab_line_ok line"
  shows "\<exists>r. fstab_line mps line = Inr r"
proof (cases "is_comment line")
  case True
  then show ?thesis by (simp add: fstab_line_def)
next
  case False
  with assms have "length (split_ws line) \<noteq> 2" by (simp add: fstab_line_ok_def)
  with False show ?thesis
    by (auto simp: fstab_line_def Let_def py_nth_def py_bind_def py_if_def py_and_def)
qed

lemma py_int_or_raise_ok: "py_int s \<noteq> None \<Longrightarrow> \<exists>i. py_int_or_raise s = Inr i"
  by (auto simp: py_int_or_raise_def)

lemma df_line_returns:
  assumes "df_line_ok mps excl line"
  shows "\<exists>r. df_line mps excl results line = Inr r"
proof -
  define array where "array = split_ws line"
  from assms have len: "6 \<le> length array"
    and num: "array ! 5 \<in> mps \<and> array ! 5 \<notin> excl \<longrightarrow> py_int (butlast (array ! 4)) \<noteq> None"
    by (simp_all add: df_line_ok_def Let_def array_def)
  show ?thesis
  proof (cases "array ! 5 \<in> mps \<and> array ! 5 \<notin> excl")
    case True
    with num obtain i where "py_int_or_raise (butlast (array ! 4)) = Inr i"
      using py_int_or_raise_ok by blast
    with True len show ?thesis
      by (simp add: df_line_def Let_def array_def [symmetric] py_nth_def py_bind_def)
  next
    case False
    with len show ?thesis
      by (auto simp: df_line_def Let_def array_def [symmetric] py_nth_def py_bind_def)
  qed
qed

lemma netstat_line_returns:
  assumes "netstat_line_ok line"
  shows "\<exists>r. netstat_line ports line = Inr r"
proof -
  define array where "array = split_ws line"
  define taken where "taken \<longleftrightarrow> array ! 0 \<in> set [''tcp'', ''tcp6''] \<and> take 6 (array ! 5) = ''LISTEN'' \<or>
          array ! 0 \<in> set [''udp'', ''udp6'']"
  from assms have len: "4 \<le> length array"
    and tcp: "array ! 0 \<in> set [''tcp'', ''tcp6''] \<longrightarrow> 6 \<le> length array"
    and num: "taken \<longrightarrow> py_int (last (split_on CHR '':'' (array ! 3))) \<noteq> None"
    by (simp_all add: netstat_line_ok_def Let_def array_def taken_def)
  have cond: "py_or (py_and (Inr (array ! 0 \<in> set [''tcp'', ''tcp6'']))
                         (py_bind (py_nth array 5) (\<lambda>a5. Inr (take 6 a5 = ''LISTEN''))))
                  (Inr (array ! 0 \<in> set [''udp'', ''udp6''])) = Inr taken"
    using tcp by (auto simp: py_or_def py_and_def py_if_def py_bind_def py_nth_def taken_def)
  have nth: "py_nth array 0 = Inr (array ! 0)" "py_nth array 3 = Inr (array ! 3)"
    using len by (auto simp: py_nth_def)
  show ?thesis
  proof (cases taken)
    case True
    with num obtain i where i: "py_int_or_raise (last (split_on CHR '':'' (array ! 3))) = Inr i"
      using py_int_or_raise_ok by blast
    show ?thesis
      unfolding netstat_line_def Let_def array_def [symmetric]
      by (simp only: nth py_bind_Inr cond i)
         (simp add: py_if_def True split: option.splits)
  next
    case False
    show ?thesis
      unfolding netstat_line_def Let_def array_def [symmetric]
      by (simp only: nth py_bind_Inr cond) (simp add: py_if_def False)
  qed
qed

text \<open>
  Claim C2, as the code has it. The three probes catch \<open>FileNotFoundError\<close> only: they
  return the empty result when the file or the program is missing, and they return a
  value when every line has the fields that the code indexes and an integer where the
  code calls \<open>int\<close>: the lines accepted by \<open>fstab_line_ok\<close>, \<open>df_line_ok\<close> and
  \<open>netstat_line_ok\<close>.
\<close>

theorem probes_return_on_indexable_lines:
  "get_mount_points None = Inr {} \<and>
   get_disk_space (IsSet mps) excl ToolMissing = Inr [] \<and>
   get_listening_ports ToolMissing = Inr {} \<and>
   ((\<forall>l \<in> set lines. fstab_line_ok l) \<longrightarrow> (\<exists>r. get_mount_points (Some lines) = Inr r)) \<and>
   ((\<forall>l \<in> set (split_on CHR 0x0A (strip out)). df_line_ok mps excl l) \<longrightarrow>
      (\<exists>r. get_disk_space (IsSet mps) excl (ToolOutput out) = Inr r)) \<and>
   ((\<forall>l \<in> set (split_on CHR 0x0A (strip out)). netstat_line_ok l) \<longrightarrow>
      (\<exists>r. get_listening_ports (ToolOutput out) = Inr r))"
proof -
  have a: "get_mount_points None = Inr {}" by (simp add: get_mount_points_def)
  have b: "get_disk_space (IsSet mps) excl ToolMissing = Inr []" by (simp add: get_disk_space_def)
  have c: "get_listening_ports ToolMissing = Inr {}" by (simp add: get_listening_ports_def)
  have d: "(\<forall>l \<in> set lines. fstab_line_ok l) \<longrightarrow> (\<exists>r. get_mount_points (Some lines) = Inr r)"
  proof
    assume "\<forall>l \<in> set lines. fstab_line_ok l"
    then have "\<exists>r. for_each fstab_line {} lines = Inr r"
      by (intro for_each_returns fstab_line_returns) simp
    then show "\<exists>r. get_mount_points (Some lines) = Inr r" by (simp add: get_mount_points_def)
  qed
  have e: "(\<forall>l \<in> set (split_on CHR 0x0A (strip out)). df_line_ok mps excl l) \<longrightarrow>
      (\<exists>r. get_disk_space (IsSet mps) excl (ToolOutput out) = Inr r)"
  proof
    assume "\<forall>l \<in> set (split_on CHR 0x0A (strip out)). df_line_ok mps excl l"
    then have "\<exists>r. for_each (df_line mps excl) [] (split_on CHR 0x0A (strip out)) = Inr r"
      by (intro for_each_returns df_line_returns) simp
    then show "\<exists>r. get_disk_space (IsSet mps) excl (ToolOutput out) = Inr r"
      by (simp add: get_disk_space_def)
  qed
  have f: "(\<forall>l \<in> set (split_on CHR 0x0A (strip out)). netstat_line_ok l) \<longrightarrow>
      (\<exists>r. get_listening_ports (ToolOutput out) = Inr r)"
  proof
    assume "\<forall>l \<in> set (split_on CHR 0x0A (strip out)). netstat_line_ok l"
    then have "\<exists>r. for_each netstat_line {} (split_on CHR 0x0A (strip out)) = Inr r"
      by (intro for_each_returns netstat_line_returns) simp
    then show "\<exists>r. get_listening_ports (ToolOutput out) = Inr r"
      by (simp add: get_listening_ports_def)
  qed
  show ?thesis by (intro conjI) (rule a b c d e f)+
qed

lemma plain_lines:
  "split_on CHR 0x0A (strip df_plain) =
     [''Filesystem      Size  Used Avail Use% Mounted on'',
      ''/dev/sda1        50G   20G   30G  40% /home'']"
  "split_on CHR 0x0A (strip netstat_plain) =
     [''Active Internet connections (only servers)'',
      ''Proto Recv-Q Send-Q Local Address Foreign Address State PID/Program name'',
      ''tcp 0 0 0.0.0.0:22 0.0.0.0:* LISTEN 812/sshd'']"
  by code_simp+

lemma plain_ok:
  "fstab_line_ok (''# /etc/fstab: static file system information.'' @ [CHR 0x0A])"
  "fstab_line_ok (''/dev/sda1 /home ext4 defaults 0 1'' @ [CHR 0x0A])"
  "fstab_line_ok (''tmpfs /tmp tmpfs defaults 0 0'' @ [CHR 0x0A])"
  "fstab_line_ok [CHR 0x0A]"
  "df_line_ok {''/'', ''/home''} {} ''Filesystem      Size  Used Avail Use% Mounted on''"
  "df_line_ok {''/'', ''/home''} {} ''/dev/sda1        50G   20G   30G  40% /home''"
  "netstat_line_ok ''Active Internet connections (only servers)''"
  "netstat_line_ok ''Proto Recv-Q Send-Q Local Address Foreign Address State PID/Program name''"
  "netstat_line_ok ''tcp 0 0 0.0.0.0:22 0.0.0.0:* LISTEN 812/sshd''"
  by code_simp+

theorem probes_return_on_indexable_lines_witness:
  "fstab_line_ok (''/dev/sda1 /home ext4 defaults 0 1'' @ [CHR 0x0A]) \<and>
   df_line_ok {''/'', ''/home''} {} ''/dev/sda1        50G   20G   30G  40% /home'' \<and>
   netstat_line_ok ''tcp 0 0 0.0.0.0:22 0.0.0.0:* LISTEN 812/sshd'' \<and>
   (\<exists>r. get_mount_points (Some fstab_plain) = Inr r) \<and>
   (\<exists>r. get_disk_space (IsSet {''/'', ''/home''}) {} (ToolOutput df_plain) = Inr r) \<and>
   (\<exists>r. get_listening_ports (ToolOutput netstat_plain) = Inr r)"
proof -
  note t = probes_return_on_indexable_lines [of "{''/'', ''/home''}" "{}" fstab_plain df_plain]
  note u = probes_return_on_indexable_lines [of "{''/'', ''/home''}" "{}" fstab_plain netstat_plain]
  have h1: "\<forall>l \<in> set fstab_plain. fstab_line_ok l"
    by (simp add: fstab_plain_def plain_ok del: append.simps)
  have h2: "\<forall>l \<in> set (split_on CHR 0x0A (strip df_plain)). df_line_ok {''/'', ''/home''} {} l"
    by (simp add: plain_lines plain_ok)
  have h3: "\<forall>l \<in> set (split_on CHR 0x0A (strip netstat_plain)). netstat_line_ok l"
    by (simp add: plain_lines plain_ok)
  from t h1 have a: "\<exists>r. get_mount_points (Some fstab_plain) = Inr r" by blast
  from t h2 have b: "\<exists>r. get_disk_space (IsSet {''/'', ''/home''}) {} (ToolOutput df_plain) = Inr r"
    by blast
  from u h3 have c: "\<exists>r. get_listening_ports (ToolOutput netstat_plain) = Inr r" by blast
  show ?thesis by (intro conjI) (rule plain_ok a b c)+
qed

text \<open>
  The claim as stated fails: a line of \<open>df\<close> or \<open>netstat\<close> with too few fields raises
  \<open>IndexError\<close>, which no handler catches.
\<close>

lemma df_wrapped_lines:
  "split_on CHR 0x0A (strip df_wrapped) =
     [''Filesystem      Size  Used Avail Use% Mounted on'', ''/dev/mapper/vg0-home'',
      ''                 50G   20G   30G  40% /home'']"
  by code_simp

lemma netstat_ipx_lines:
  "split_on CHR 0x0A (strip netstat_ipx) =
     [''Active Internet connections (only servers)'',
      ''Proto Recv-Q Send-Q Local Address Foreign Address State PID/Program name'',
      ''tcp 0 0 0.0.0.0:22 0.0.0.0:* LISTEN 812/sshd'', ''Active IPX sockets'']"
  by code_simp

lemma split_examples:
  "split_ws ''Filesystem      Size  Used Avail Use% Mounted on'' =
     [''Filesystem'', ''Size'', ''Used'', ''Avail'', ''Use%'', ''Mounted'', ''on'']"
  "split_ws ''/dev/mapper/vg0-home'' = [''/dev/mapper/vg0-home'']"
  "split_ws ''Active Internet connections (only servers)'' =
     [''Active'', ''Internet'', ''connections'', ''(only'', ''servers)'']"
  "split_ws ''Proto Recv-Q Send-Q Local Address Foreign Address State PID/Program name'' =
     [''Proto'', ''Recv-Q'', ''Send-Q'', ''Local'', ''Address'', ''Foreign'', ''Address'', ''State'',
      ''PID/Program'', ''name'']"
  "split_ws ''tcp 0 0 0.0.0.0:22 0.0.0.0:* LISTEN 812/sshd'' =
     [''tcp'', ''0'', ''0'', ''0.0.0.0:22'', ''0.0.0.0:*'', ''LISTEN'', ''812/sshd'']"
  "split_ws ''Active IPX sockets'' = [''Active'', ''IPX'', ''sockets'']"
  by code_simp+

theorem probes_raise_counterexample:
  "get_disk_space (IsSet {''/'', ''/home''}) {} (ToolOutput df_wrapped) = Inl IndexError \<and>
   get_listening_ports (ToolOutput netstat_ipx) = Inl IndexError"
proof -
  have a: "get_disk_space (IsSet {''/'', ''/home''}) {} (ToolOutput df_wrapped) = Inl IndexError"
    by (simp add: get_disk_space_def df_wrapped_lines df_line_def split_examples py_nth_def
          py_bind_def)
  have p22: "py_int_or_raise ''22'' = Inr 22" by code_simp
  have l22: "last (split_on CHR '':'' ''0.0.0.0:22'') = ''22''" by code_simp
  have b: "get_listening_ports (ToolOutput netstat_ipx) = Inl IndexError"
    by (simp add: get_listening_ports_def netstat_ipx_lines netstat_line_def split_examples
          py_nth_def py_bind_def py_if_def py_or_def py_and_def p22 l22 Protocol_members_def)
  from a b show ?thesis by simp
qed

text \<open>
  A line of \<open>/etc/fstab\<close> with exactly two fields passes the test \<open>len(array) >= 2\<close> and
  then fails on \<open>array[2]\<close>.
\<close>

lemma fstab_two_fields_raises:
  "get_mount_points (Some [''/dev/sda1 /home'' @ [CHR 0x0A]]) = Inl IndexError"
  by code_simp

section \<open>Classification of a measurement\<close>

lemma colors_distinct:
  "red \<noteq> green" "red \<noteq> orange" "orange \<noteq> green"
  "green \<noteq> red" "orange \<noteq> red" "green \<noteq> orange"
  by (simp_all add: red_def green_def orange_def)

lemma color_of_inj: "color_of a = color_of b \<longleftrightarrow> a = b"
  by (cases a; cases b) (simp_all add: colors_distinct)

lemma color_of_red: "color_of s = red \<longleftrightarrow> s = Critical"
  by (cases s) (simp_all add: colors_distinct)

lemma row_color_int:
  "row_color (PInt v) (PInt warn) (PInt crit) = Inr (color_of (classify_spec v warn crit))"
  by (simp add: row_color_def py_if_def classify_spec_def)

lemma partition_color_int:
  "partition_color v (PInt warn) (PInt crit) = Inr (color_of (classify_spec v warn crit))"
  by (simp add: partition_color_def py_if_def classify_spec_def)

lemma add_memory_row_int:
  "add_memory_row fmt rows (PInt warn) (PInt crit) title val (PInt p) =
     Inr (rows @ [color_of (classify_spec p warn crit) @ fmt title val (PInt p) @ reset])"
  by (simp add: add_memory_row_def row_color_int)

text \<open>
  Claim C3. For integers \<open>v\<close>, \<open>warn\<close> and \<open>crit\<close> the colour chosen by \<open>add_memory_row\<close> is
  red (critical) iff \<open>v \<ge> crit\<close>, orange (warning) iff \<open>warn \<le> v < crit\<close>, and green (normal)
  otherwise, which is the specification's \<open>classify\<close>. The partition rows use the same
  rule on the disk percentage, and the five memory rows use it on the memory, swap,
  buffers, cached and reclaimable percentages with the memory and swap thresholds.
\<close>

theorem classification_rule:
  "(row_color (PInt v) (PInt warn) (PInt crit) = Inr red \<longleftrightarrow> v \<ge> crit) \<and>
   (row_color (PInt v) (PInt warn) (PInt crit) = Inr orange \<longleftrightarrow> warn \<le> v \<and> v < crit) \<and>
   (row_color (PInt v) (PInt warn) (PInt crit) = Inr green \<longleftrightarrow> \<not> v \<ge> crit \<and> \<not> (warn \<le> v \<and> v < crit)) \<and>
   row_color (PInt v) (PInt warn) (PInt crit) = Inr (color_of (classify_spec v warn crit)) \<and>
   partition_color v (PInt warn) (PInt crit) = row_color (PInt v) (PInt warn) (PInt crit) \<and>
   (MEM_WARNING cfg = PInt mw \<and> MEM_CRITICAL cfg = PInt mc \<and>
    SWAP_WARNING cfg = PInt sw \<and> SWAP_CRITICAL cfg = PInt sc \<and> swap_perc mv = PInt sp \<longrightarrow>
      memory_rows fmt cfg mv [] =
        Inr [color_of (classify_spec (mem_perc mv) mw mc)
               @ fmt ''Memory'' (PInt (mem_used mv)) (PInt (mem_perc mv)) @ reset,
             color_of (classify_spec sp sw sc)
               @ fmt ''Swap'' (swap_used mv) (PInt sp) @ reset,
             color_of (classify_spec (buffers_perc mv) mw mc)
               @ fmt ''Buffers'' (PInt (buffers mv)) (PInt (buffers_perc mv)) @ reset,
             color_of (classify_spec (cached_perc mv) mw mc)
               @ fmt ''Cached'' (PInt (cached mv)) (PInt (cached_perc mv)) @ reset,
             color_of (classify_spec (reclaimable_perc mv) mw mc)
               @ fmt ''Reclaimable'' (PInt (reclaimable mv)) (PInt (reclaimable_perc mv)) @ reset])"
proof -
  have rc: "row_color (PInt v) (PInt warn) (PInt crit) = Inr (color_of (classify_spec v warn crit))"
    by (rule row_color_int)
  have a: "row_color (PInt v) (PInt warn) (PInt crit) = Inr red \<longleftrightarrow> v \<ge> crit"
    by (simp add: rc color_of_red) (simp add: classify_spec_def)
  have b: "row_color (PInt v) (PInt warn) (PInt crit) = Inr orange \<longleftrightarrow> warn \<le> v \<and> v < crit"
    by (simp add: rc classify_spec_def colors_distinct)
  have c: "row_color (PInt v) (PInt warn) (PInt crit) = Inr green \<longleftrightarrow> \<not> v \<ge> crit \<and> \<not> (warn \<le> v \<and> v < crit)"
    by (simp add: rc classify_spec_def colors_distinct)
  have d: "partition_color v (PInt warn) (PInt crit) = row_color (PInt v) (PInt warn) (PInt crit)"
    by (simp add: rc partition_color_int)
  have e: "MEM_WARNING cfg = PInt mw \<and> MEM_CRITICAL cfg = PInt mc \<and>
    SWAP_WARNING cfg = PInt sw \<and> SWAP_CRITICAL cfg = PInt sc \<and> swap_perc mv = PInt sp \<longrightarrow>
      memory_rows fmt cfg mv [] =
        Inr [color_of (classify_spec (mem_perc mv) mw mc)
               @ fmt ''Memory'' (PInt (mem_used mv)) (PInt (mem_perc mv)) @ reset,
             color_of (classify_spec sp sw sc)
               @ fmt ''Swap'' (swap_used mv) (PInt sp) @ reset,
             color_of (classify_spec (buffers_perc mv) mw mc)
               @ fmt ''Buffers'' (PInt (buffers mv)) (PInt (buffers_perc mv)) @ reset,
             color_of (classify_spec (cached_perc mv) mw mc)
               @ fmt ''Cached'' (PInt (cached mv)) (PInt (cached_perc mv)) @ reset,
             color_of (classify_spec (reclaimable_perc mv) mw mc)
               @ fmt ''Reclaimable'' (PInt (reclaimable mv)) (PInt (reclaimable_perc mv)) @ reset]"
    by (simp add: memory_rows_def add_memory_row_int py_bind_def)
  show ?thesis
    by (intro conjI) (rule a b c rc d e)+
qed

theorem classification_rule_witness:
  "row_color (PInt 85) (PInt 80) (PInt 90) = Inr orange \<and>
   partition_color 85 (PInt 80) (PInt 90) = Inr orange \<and>
   MEM_WARNING (get_config NoFile) = PInt 80 \<and> MEM_CRITICAL (get_config NoFile) = PInt 90 \<and>
   SWAP_WARNING (get_config NoFile) = PInt 10 \<and> SWAP_CRITICAL (get_config NoFile) = PInt 20 \<and>
   memory_rows (\<lambda>t v p. t) (get_config NoFile)
     \<lparr>mem_perc = 75, mem_used = 0, swap_perc = PInt 15, swap_used = PInt 0, buffers = 0,
      buffers_perc = 90, cached = 0, cached_perc = 10, reclaimable = 0, reclaimable_perc = 1\<rparr> []
     = Inr [green @ ''Memory'' @ reset, orange @ ''Swap'' @ reset, red @ ''Buffers'' @ reset,
            green @ ''Cached'' @ reset, green @ ''Reclaimable'' @ reset]"
  using classification_rule [of 85 80 90 "get_config NoFile" 80 90 10 20
      "\<lparr>mem_perc = 75, mem_used = 0, swap_perc = PInt 15, swap_used = PInt 0, buffers = 0,
        buffers_perc = 90, cached = 0, cached_perc = 10, reclaimable = 0, reclaimable_perc = 1\<rparr>"
      15 "\<lambda>t v p. t"]
  by (simp add: MEM_WARNING_def MEM_CRITICAL_def SWAP_WARNING_def SWAP_CRITICAL_def
        get_or_default_def classify_spec_def)

section \<open>Configuration settings\<close>

lemma dropWhile_rev_dropWhile:
  "dropWhile P (rev (dropWhile P (rev (dropWhile P s)))) = rev (dropWhile P (rev (dropWhile P s)))"
proof (cases "dropWhile P (rev (dropWhile P s)) = []")
  case True
  show ?thesis by (simp only: True rev.simps dropWhile.simps)
next
  case False
  define t where "t = dropWhile P s"
  define u where "u = dropWhile P (rev t)"
  from False have u: "u \<noteq> []" by (simp add: u_def t_def)
  then have t: "t \<noteq> []" by (auto simp: u_def)
  have "\<not> P (hd t)" unfolding t_def using t hd_dropWhile [of P s] by (simp add: t_def)
  moreover have "hd (rev u) = hd t"
  proof -
    have "rev t = takeWhile P (rev t) @ u" by (simp add: u_def)
    then have "t = rev u @ rev (takeWhile P (rev t))"
      by (metis rev_append rev_rev_ident)
    with u show ?thesis by (metis hd_append2 rev_is_Nil_conv)
  qed
  ultimately have "\<not> P (hd (rev u))" by simp
  with u have "dropWhile P (rev u) = rev u"
    by (cases "rev u") simp_all
  then show ?thesis by (simp add: u_def t_def)
qed

lemma strip_strip: "strip (strip s) = strip s"
  by (simp add: strip_def dropWhile_rev_dropWhile)

lemma py_int_strip: "py_int (strip s) = py_int s"
  by (simp add: py_int_def strip_strip)

lemma int_setting_eq:
  "int_setting v = (case py_int v of Some i \<Rightarrow> PInt i | None \<Rightarrow> PNone)"
  by (simp add: int_setting_def py_int_strip)

text \<open>
  Claim C4, as the code has it. For a key that no section \<open>disk\<close>, \<open>services\<close> or \<open>ports\<close>
  has: the text of a numeric setting that \<open>int\<close> rejects is stored as \<open>None\<close>, which is
  not zero; \<open>config.get(key, default) or default\<close> is the default when the setting is
  absent or \<open>None\<close>; and a text that parses to an integer other than zero is used as
  configured.
\<close>

theorem numeric_setting_default:
  assumes "section_item sections ''disk'' k = None"
    and "section_item sections ''services'' k = None"
    and "section_item sections ''ports'' k = None"
  shows "(numeric_text sections k = None \<longrightarrow>
            get_config (Parsed sections) k = None \<and>
            get_or_default (get_config (Parsed sections)) k d = PInt d) \<and>
         (numeric_text sections k = Some v \<and> py_int v = None \<longrightarrow>
            get_config (Parsed sections) k = Some PNone \<and>
            get_or_default (get_config (Parsed sections)) k d = PInt d) \<and>
         (numeric_text sections k = Some v \<and> py_int v = Some i \<and> i \<noteq> 0 \<longrightarrow>
            get_config (Parsed sections) k = Some (PInt i) \<and>
            get_or_default (get_config (Parsed sections)) k d = PInt i)"
proof -
  have cfg: "get_config (Parsed sections) k = map_option int_setting (numeric_text sections k)"
    by (simp add: get_config_lookup assms numeric_text_def del: get_config.simps
          split: option.splits)
  show ?thesis
    by (simp add: cfg get_or_default_def int_setting_eq del: get_config.simps)
qed

theorem numeric_setting_default_witness:
  "numeric_text [(''threshold'', [(''disk_warning'', ''75''), (''mem_warning'', ''high'')])]
     ''disk_warning'' = Some ''75'' \<and>
   DISK_WARNING (get_config (Parsed [(''threshold'', [(''disk_warning'', ''75''), (''mem_warning'', ''high'')])]))
     = PInt 75 \<and>
   get_config (Parsed [(''threshold'', [(''disk_warning'', ''75''), (''mem_warning'', ''high'')])])
     ''mem_warning'' = Some PNone \<and>
   MEM_WARNING (get_config (Parsed [(''threshold'', [(''disk_warning'', ''75''), (''mem_warning'', ''high'')])]))
     = PInt 80 \<and>
   SWAP_WARNING (get_config (Parsed [(''threshold'', [(''disk_warning'', ''75''), (''mem_warning'', ''high'')])]))
     = PInt 10"
proof -
  let ?secs = "[(''threshold'', [(''disk_warning'', ''75''), (''mem_warning'', ''high'')])]"
  have n1: "numeric_text ?secs ''disk_warning'' = Some ''75''"
    and n2: "numeric_text ?secs ''mem_warning'' = Some ''high''"
    and n3: "numeric_text ?secs ''swap_warning'' = None"
    by (simp_all add: numeric_text_def section_item_def)
  have p1: "py_int ''75'' = Some 75" and p2: "py_int ''high'' = None"
    by code_simp+
  have s: "section_item ?secs ''disk'' k = None" "section_item ?secs ''services'' k = None"
    "section_item ?secs ''ports'' k = None" for k
    by (simp_all add: section_item_def)
  from numeric_setting_default [where sections = ?secs and k = "''disk_warning''"
      and v = "''75''" and d = 80 and i = 75, OF s] n1 p1
  have a: "DISK_WARNING (get_config (Parsed ?secs)) = PInt 75"
    by (simp add: DISK_WARNING_def)
  from numeric_setting_default [where sections = ?secs and k = "''mem_warning''"
      and v = "''high''" and d = 80 and i = 1, OF s] n2 p2
  have b: "get_config (Parsed ?secs) ''mem_warning'' = Some PNone"
    and c: "MEM_WARNING (get_config (Parsed ?secs)) = PInt 80"
    by (simp_all add: MEM_WARNING_def)
  from numeric_setting_default [where sections = ?secs and k = "''swap_warning''"
      and v = "[]" and d = 10 and i = 1, OF s] n3
  have d: "SWAP_WARNING (get_config (Parsed ?secs)) = PInt 10"
    by (simp add: SWAP_WARNING_def)
  from n1 a b c d show ?thesis by blast
qed

text \<open>
  The claim as stated fails on a setting of zero: the text \<open>0\<close> parses, \<open>0\<close> is stored,
  and the threshold used is the default 80, since \<open>0 or 80\<close> is \<open>80\<close>.
\<close>

theorem numeric_setting_zero_counterexample:
  "numeric_text [(''threshold'', [(''disk_warning'', ''0'')])] ''disk_warning'' = Some ''0'' \<and>
   py_int ''0'' = Some 0 \<and>
   get_config (Parsed [(''threshold'', [(''disk_warning'', ''0'')])]) ''disk_warning'' = Some (PInt 0) \<and>
   DISK_WARNING (get_config (Parsed [(''threshold'', [(''disk_warning'', ''0'')])])) = PInt 80"
  by code_simp

section \<open>Overall disk status\<close>

lemma disk_status_step_int:
  "disk_status_step (PInt w) (PInt c) (color_of s) d =
     Inr (color_of (max s (classify_spec (use_pct d) w c)))"
  by (cases s)
     (simp_all add: disk_status_step_def py_if_def py_and_def classify_spec_def colors_distinct
        max_def less_eq_severity_def)

lemma Max_insert_max:
  fixes s y :: "'a::linorder"
  assumes "finite A"
  shows "Max (insert (max s y) A) = Max (insert s (insert y A))"
proof (cases "A = {}")
  case True
  then show ?thesis by simp
next
  case False
  with assms show ?thesis by (simp add: max.assoc)
qed

lemma disk_status_loop_int:
  "disk_status_loop (PInt w) (PInt c) (color_of s) ds =
     Inr (color_of (Max (insert s ((\<lambda>(i, d). classify_spec (use_pct d) w c) ` set ds))))"
proof (induction ds arbitrary: s)
  case Nil
  show ?case by simp
next
  case (Cons x ds)
  obtain i d where x: "x = (i, d)" by (cases x)
  let ?f = "\<lambda>(i, d). classify_spec (use_pct d) w c"
  have "Max (insert (max s (?f x)) (?f ` set ds)) = Max (insert s (insert (?f x) (?f ` set ds)))"
    by (rule Max_insert_max) simp
  then show ?case
    by (simp add: x disk_status_step_int Cons.IH)
qed

text \<open>
  Claim C5. With integer thresholds, the colour of the disk heading is the colour of the
  greatest severity among the classifications of the reported mount points, and of
  \<open>Normal\<close> when no mount point is reported.
\<close>

theorem disk_status_is_worst:
  "disk_status_color (PInt w) (PInt c) ds =
     Inr (color_of (Max (insert Normal ((\<lambda>(i, d). classify_spec (use_pct d) w c) ` set ds))))"
  unfolding disk_status_color_def using disk_status_loop_int [of w c Normal ds] by simp

theorem disk_status_is_worst_witness:
  "disk_status_color (PInt 80) (PInt 90)
     [(''/'', \<lparr>use_pct = 95, available = ''2G''\<rparr>), (''/home'', \<lparr>use_pct = 50, available = ''40G''\<rparr>)]
     = Inr red \<and>
   disk_status_color (PInt 80) (PInt 90) [] = Inr green"
  using disk_status_is_worst [of 80 90 "[(''/'', \<lparr>use_pct = 95, available = ''2G''\<rparr>), (''/home'', \<lparr>use_pct = 50, available = ''40G''\<rparr>)]"]
    disk_status_is_worst [of 80 90 "[]"]
  by (simp add: classify_spec_def max_def less_eq_severity_def)

section \<open>Checked ports\<close>

text \<open>
  Claim C6. When the listening ports are observed as the set \<open>L\<close>, \<open>get_checked_ports\<close> on
  a monitored set \<open>M\<close> returns a dictionary whose keys are exactly \<open>M\<close> and which maps each
  pair to whether it is in \<open>L\<close>; it is empty for an empty \<open>M\<close>. The values are booleans.
\<close>

theorem checked_ports_mapping:
  assumes "get_listening_ports netstat = Inr L"
  shows "\<exists>r. get_checked_ports (IsSet M) netstat = Inr r \<and> dom r = M \<and>
           (\<forall>p \<in> M. r p = Some (p \<in> L)) \<and> (M = {} \<longrightarrow> r = Map.empty)"
proof -
  let ?r = "\<lambda>p. if p \<in> M - (M - L) then Some True else if p \<in> M - L then Some False else None"
  have "get_checked_ports (IsSet M) netstat = Inr ?r"
    by (simp add: get_checked_ports_def py_bind_def assms)
  moreover have "dom ?r = M"
    by (auto simp: dom_def)
  moreover have "\<forall>p \<in> M. ?r p = Some (p \<in> L)"
    by auto
  moreover have "M = {} \<longrightarrow> ?r = Map.empty"
    by auto
  ultimately show ?thesis by blast
qed

lemma netstat_example:
  "get_listening_ports (ToolOutput ''tcp 0 0 0.0.0.0:22 0.0.0.0:* LISTEN 1/sshd'') = Inr {(22, TCP)}"
  by code_simp

theorem checked_ports_mapping_witness:
  "get_listening_ports (ToolOutput ''tcp 0 0 0.0.0.0:22 0.0.0.0:* LISTEN 1/sshd'') = Inr {(22, TCP)} \<and>
   (\<exists>r. get_checked_ports (IsSet {(22, TCP), (80, TCP)})
          (ToolOutput ''tcp 0 0 0.0.0.0:22 0.0.0.0:* LISTEN 1/sshd'') = Inr r \<and>
        dom r = {(22, TCP), (80, TCP)} \<and> r (22, TCP) = Some True \<and> r (80, TCP) = Some False) \<and>
   (\<exists>r. get_checked_ports (IsSet {})
          (ToolOutput ''tcp 0 0 0.0.0.0:22 0.0.0.0:* LISTEN 1/sshd'') = Inr r \<and> r = Map.empty)"
proof -
  let ?out = "ToolOutput ''tcp 0 0 0.0.0.0:22 0.0.0.0:* LISTEN 1/sshd''"
  have h: "get_listening_ports ?out = Inr {(22, TCP)}"
    by (rule netstat_example)
  from checked_ports_mapping [OF h, of "{(22, TCP), (80, TCP)}"]
  obtain r where r: "get_checked_ports (IsSet {(22, TCP), (80, TCP)}) ?out = Inr r"
    "dom r = {(22, TCP), (80, TCP)}" "\<forall>p \<in> {(22, TCP), (80, TCP)}. r p = Some (p \<in> {(22, TCP)})"
    by blast
  from r(3) have "r (22, TCP) = Some True" "r (80, TCP) = Some False"
    by simp_all
  with r(1,2) have a: "\<exists>r. get_checked_ports (IsSet {(22, TCP), (80, TCP)}) ?out = Inr r \<and>
        dom r = {(22, TCP), (80, TCP)} \<and> r (22, TCP) = Some True \<and> r (80, TCP) = Some False"
    by blast
  from checked_ports_mapping [OF h, of "{}"]
  have b: "\<exists>r. get_checked_ports (IsSet {}) ?out = Inr r \<and> r = Map.empty"
    by blast
  from h a b show ?thesis by blast
qed

section \<open>Protocol and port identity\<close>

lemma from_value_members:
  "from_value (PStr s) = Some p \<longleftrightarrow> proto_value p = s"
  by (cases p) (auto simp: Protocol_members_def)

lemma proto_value_inj: "proto_value p = proto_value q \<longleftrightarrow> p = q"
  by (cases p; cases q) simp_all

text \<open>
  Claim C7. \<open>Protocol\<close> has exactly the members tcp, tcp6, udp and udp6, found by their
  values; its equality is equality of the values and so of members, its hash is the
  hash of the value, and its order is that of the values, a strict total order. Two
  \<open>(port, protocol)\<close> pairs are equal exactly when both components are, so \<open>(80, tcp)\<close>
  and \<open>(80, udp)\<close> differ and a set holds two pairs as one element exactly when they
  are equal in both components.
\<close>

theorem protocol_identity:
  "(UNIV :: Protocol set) = {TCP, TCP6, UDP, UDP6} \<and>
   (from_value (PStr s) = Some p \<longleftrightarrow> proto_value p = s) \<and>
   (from_value (PStr s) = None \<longleftrightarrow> s \<notin> {''tcp'', ''tcp6'', ''udp'', ''udp6''}) \<and>
   (Protocol_eq p q \<longleftrightarrow> p = q) \<and>
   (Protocol_eq p q \<longleftrightarrow> proto_value p = proto_value q) \<and>
   Protocol_hash str_hash p = str_hash (proto_value p) \<and>
   (Protocol_eq p q \<longrightarrow> Protocol_hash str_hash p = Protocol_hash str_hash q) \<and>
   (Protocol_lt p q \<longleftrightarrow> proto_value p < proto_value q) \<and>
   Protocol_lt TCP TCP6 \<and> Protocol_lt TCP6 UDP \<and> Protocol_lt UDP UDP6 \<and>
   \<not> Protocol_lt p p \<and>
   (Protocol_lt p q \<and> Protocol_lt q r \<longrightarrow> Protocol_lt p r) \<and>
   (Protocol_lt p q \<or> p = q \<or> Protocol_lt q p) \<and>
   (port_eq (n, p) (m, q) \<longleftrightarrow> n = m \<and> p = q) \<and>
   \<not> port_eq (80, TCP) (80, UDP) \<and>
   card {(n, p), (m, q)} = (if port_eq (n, p) (m, q) then 1 else 2)"
proof -
  have u: "(UNIV :: Protocol set) = {TCP, TCP6, UDP, UDP6}"
  proof -
    have "x \<in> {TCP, TCP6, UDP, UDP6}" for x :: Protocol by (cases x) simp_all
    then show ?thesis by blast
  qed
  have fv: "from_value (PStr s) = Some p \<longleftrightarrow> proto_value p = s"
    by (rule from_value_members)
  have fn: "from_value (PStr s) = None \<longleftrightarrow> s \<notin> {''tcp'', ''tcp6'', ''udp'', ''udp6''}"
    by (simp add: Protocol_members_def)
  have eq: "Protocol_eq p q \<longleftrightarrow> p = q"
    by (simp add: Protocol_eq_def proto_value_inj)
  have ev: "Protocol_eq p q \<longleftrightarrow> proto_value p = proto_value q"
    by (simp add: Protocol_eq_def)
  have hv: "Protocol_hash str_hash p = str_hash (proto_value p)"
    by (simp add: Protocol_hash_def)
  have hs: "Protocol_eq p q \<longrightarrow> Protocol_hash str_hash p = Protocol_hash str_hash q"
    by (simp add: Protocol_eq_def Protocol_hash_def)
  have lv: "Protocol_lt p q \<longleftrightarrow> proto_value p < proto_value q"
    by (simp add: Protocol_lt_def)
  have c1: "Protocol_lt TCP TCP6" and c2: "Protocol_lt TCP6 UDP" and c3: "Protocol_lt UDP UDP6"
    by (simp_all add: Protocol_lt_def)
  have irr: "\<not> Protocol_lt p p"
    by (simp add: Protocol_lt_def)
  have tr: "Protocol_lt p q \<and> Protocol_lt q r \<longrightarrow> Protocol_lt p r"
    by (auto simp: Protocol_lt_def)
  have tot: "Protocol_lt p q \<or> p = q \<or> Protocol_lt q p"
    using proto_value_inj [of p q] by (auto simp: Protocol_lt_def)
  have pe: "port_eq (n, p) (m, q) \<longleftrightarrow> n = m \<and> p = q"
    by (simp add: port_eq_def Protocol_eq_def proto_value_inj)
  have ne: "\<not> port_eq (80, TCP) (80, UDP)"
    by (simp add: port_eq_def Protocol_eq_def)
  have cd: "card {(n, p), (m, q)} = (if port_eq (n, p) (m, q) then 1 else 2)"
    by (auto simp: pe)
  show ?thesis
    by (intro conjI) (rule u fv fn eq ev hv hs lv c1 c2 c3 irr tr tot pe ne cd)+
qed

theorem protocol_identity_witness:
  "Protocol_lt TCP UDP \<and> Protocol_eq UDP6 UDP6 \<and>
   Protocol_hash (\<lambda>s. int (length s)) UDP6 = 4 \<and>
   Protocol_hash (\<lambda>s. int (length s)) TCP = 3 \<and>
   from_value (PStr ''tcp6'') = Some TCP6 \<and>
   \<not> port_eq (80, TCP) (80, UDP) \<and> card {(80 :: int, TCP), (80, UDP)} = 2"
proof -
  note t = protocol_identity [where s = "''tcp6''" and p = TCP and q = TCP6 and r = UDP
      and str_hash = "\<lambda>s. int (length s)" and n = 80 and m = 80]
  note u = protocol_identity [where s = "''tcp6''" and p = TCP6 and q = TCP6 and r = UDP
      and str_hash = "\<lambda>s. int (length s)" and n = 80 and m = 80]
  note v = protocol_identity [where s = "''tcp6''" and p = UDP6 and q = UDP6 and r = UDP
      and str_hash = "\<lambda>s. int (length s)" and n = 80 and m = 80]
  note w = protocol_identity [where s = "''tcp6''" and p = TCP and q = UDP and r = UDP
      and str_hash = "\<lambda>s. int (length s)" and n = 80 and m = 80]
  from t have a: "Protocol_lt TCP UDP" by blast
  from v have b: "Protocol_eq UDP6 UDP6" by blast
  from v have "Protocol_hash (\<lambda>s. int (length s)) UDP6 = int (length (proto_value UDP6))"
    by blast
  then have c: "Protocol_hash (\<lambda>s. int (length s)) UDP6 = 4" by simp
  from t have "Protocol_hash (\<lambda>s. int (length s)) TCP = int (length (proto_value TCP))"
    by blast
  then have c': "Protocol_hash (\<lambda>s. int (length s)) TCP = 3" by simp
  have "proto_value TCP6 = ''tcp6''" by simp
  with u have d: "from_value (PStr ''tcp6'') = Some TCP6" by blast
  from w have e: "\<not> port_eq (80, TCP) (80, UDP)" by blast
  from w have "card {(80 :: int, TCP), (80, UDP)} = (if port_eq (80, TCP) (80, UDP) then 1 else 2)"
    by blast
  with e have f: "card {(80 :: int, TCP), (80, UDP)} = 2" by simp
  from a b c c' d e f show ?thesis by blast
qed

section \<open>Port lists\<close>

lemma map_int_fails: "(\<exists>e. map_int ts = Inl e) \<longleftrightarrow> (\<exists>t \<in> set ts. py_int t = None)"
  by (induction ts) (auto split: option.splits sum.splits)

lemma map_int_values:
  "map_int ts = Inr is \<Longrightarrow> set is = {i. \<exists>t \<in> set ts. py_int t = Some i}"
proof (induction ts arbitrary: "is")
  case Nil
  then show ?case by simp
next
  case (Cons t ts)
  then show ?case
    by (auto split: option.splits sum.splits)
qed

lemma set_stripped_tokens:
  "set (stripped_tokens v) = strip ` set (split_on CHR '','' v) - {[]}"
  by (auto simp: stripped_tokens_def)

lemma port_set_setting_eq:
  "port_set_setting v =
     PIntSet (if \<exists>t \<in> set (stripped_tokens v). py_int t = None then {}
              else {i. \<exists>t \<in> set (stripped_tokens v). py_int t = Some i})"
proof (cases "map_int (stripped_tokens v)")
  case (Inl e)
  then have "\<exists>t \<in> set (stripped_tokens v). py_int t = None"
    using map_int_fails [of "stripped_tokens v"] by blast
  with Inl show ?thesis by (simp add: port_set_setting_def)
next
  case (Inr "is")
  then have "\<not> (\<exists>t \<in> set (stripped_tokens v). py_int t = None)"
    using map_int_fails [of "stripped_tokens v"] by auto
  then show ?thesis
    by (simp only: port_set_setting_def Inr sum.case if_not_P if_False map_int_values [OF Inr])
qed

text \<open>
  Claim C8. For a key of the section \<open>ports\<close>, the tokens are the pieces between commas,
  stripped, the empty ones left out. If \<open>int\<close> rejects one of them the stored set is
  empty; otherwise it is the set of the integers of all the tokens.
\<close>

theorem port_list_fails_closed:
  assumes "section_item sections ''ports'' k = Some v"
  shows "get_config (Parsed sections) k =
     Some (PIntSet
       (if \<exists>t \<in> strip ` set (split_on CHR '','' v) - {[]}. py_int t = None then {}
        else {i. \<exists>t \<in> strip ` set (split_on CHR '','' v) - {[]}. py_int t = Some i}))"
  using assms
  by (simp only: get_config_lookup option.case port_set_setting_eq set_stripped_tokens)

theorem port_list_fails_closed_witness:
  "section_item [(''ports'', [(''tcp_ports_to_monitor'', ''22, 80,, x1'')])] ''ports''
     ''tcp_ports_to_monitor'' = Some ''22, 80,, x1'' \<and>
   get_config (Parsed [(''ports'', [(''tcp_ports_to_monitor'', ''22, 80,, x1'')])])
     ''tcp_ports_to_monitor'' = Some (PIntSet {}) \<and>
   get_config (Parsed [(''ports'', [(''tcp_ports_to_monitor'', ''22, 80,, 443'')])])
     ''tcp_ports_to_monitor'' = Some (PIntSet {22, 80, 443})"
proof -
  let ?bad = "[(''ports'', [(''tcp_ports_to_monitor'', ''22, 80,, x1'')])]"
  let ?good = "[(''ports'', [(''tcp_ports_to_monitor'', ''22, 80,, 443'')])]"
  have h1: "section_item ?bad ''ports'' ''tcp_ports_to_monitor'' = Some ''22, 80,, x1''"
    by (simp add: section_item_def)
  have h2: "section_item ?good ''ports'' ''tcp_ports_to_monitor'' = Some ''22, 80,, 443''"
    by (simp add: section_item_def)
  have t1: "strip ` set (split_on CHR '','' ''22, 80,, x1'') - {[]} = {''22'', ''80'', ''x1''}"
    by code_simp
  have t2: "strip ` set (split_on CHR '','' ''22, 80,, 443'') - {[]} = {''22'', ''80'', ''443''}"
    by code_simp
  have p: "py_int ''22'' = Some 22" "py_int ''80'' = Some 80" "py_int ''443'' = Some 443"
    "py_int ''x1'' = None"
    by code_simp+
  have a: "get_config (Parsed ?bad) ''tcp_ports_to_monitor'' = Some (PIntSet {})"
    using port_list_fails_closed [OF h1] by (simp only: t1) (simp add: p)
  have b: "get_config (Parsed ?good) ''tcp_ports_to_monitor'' = Some (PIntSet {22, 80, 443})"
    using port_list_fails_closed [OF h2] by (simp only: t2) (auto simp: p)
  from h1 a b show ?thesis by blast
qed

section \<open>Percentages\<close>

text \<open>
  Claim C9, as the code has it. The script computes \<open>int(100 - 100 * free / total)\<close> and
  \<open>int(100 * value / total)\<close> in binary64 floating point. For \<open>0 < MemTotal \<le> 2\<^sup>4\<^sup>6\<close> and
  \<open>0 \<le> MemFree \<le> MemTotal\<close> the used-memory percentage is
  \<open>100 * (MemTotal - MemFree) / MemTotal\<close> truncated toward zero, and for \<open>0 \<le> value \<le> MemTotal\<close>
  the percentage of buffers or cache is \<open>100 * value / MemTotal\<close> truncated toward zero.
\<close>

theorem percent_truncation_bounded:
  assumes "mem_get m ''MemTotal'' = Inr t" and "0 < t" and "t \<le> 2 ^ 46"
  shows "(\<forall>f. mem_get m ''MemFree'' = Inr f \<and> 0 \<le> f \<and> f \<le> t \<longrightarrow>
            used_percent m ''MemFree'' ''MemTotal'' = Inr (used_percent_spec t f)) \<and>
         (\<forall>key v. mem_get m key = Inr v \<and> 0 \<le> v \<and> v \<le> t \<longrightarrow>
            part_percent m key = Inr (part_percent_spec v t))"
proof (intro conjI allI impI)
  fix f
  assume a: "mem_get m ''MemFree'' = Inr f \<and> 0 \<le> f \<and> f \<le> t"
  then have f: "0 \<le> f" "f \<le> t" by simp_all
  from used_percent_value [OF assms(2,3) f]
  obtain q where q: "true_div (100 * f) t = Inr q"
    "float_to_int (int_minus_float 100 q) = (100 * (t - f)) div t" by blast
  have "used_percent_spec t f = (100 * (t - f)) div t"
    unfolding used_percent_spec_def using f assms(2) by (intro trunc_div_nonneg) simp_all
  with q a assms(1) show "used_percent m ''MemFree'' ''MemTotal'' = Inr (used_percent_spec t f)"
    by (simp add: used_percent_def py_bind_def)
next
  fix key v
  assume a: "mem_get m key = Inr v \<and> 0 \<le> v \<and> v \<le> t"
  then have v: "0 \<le> v" "v \<le> t" by simp_all
  from part_percent_value [OF assms(2,3) v]
  obtain q where q: "true_div (100 * v) t = Inr q" "float_to_int q = (100 * v) div t" by blast
  have "part_percent_spec v t = (100 * v) div t"
    unfolding part_percent_spec_def using v assms(2) by (intro trunc_div_nonneg) simp_all
  with q a assms(1) show "part_percent m key = Inr (part_percent_spec v t)"
    by (simp add: part_percent_def py_bind_def)
qed

theorem percent_truncation_bounded_witness:
  "used_percent [(''MemFree'', 250), (''MemTotal'', 1000), (''Buffers'', 50), (''Cached'', 100)]
     ''MemFree'' ''MemTotal'' = Inr 75 \<and>
   part_percent [(''MemFree'', 250), (''MemTotal'', 1000), (''Buffers'', 50), (''Cached'', 100)]
     ''Buffers'' = Inr 5 \<and>
   part_percent [(''MemFree'', 250), (''MemTotal'', 1000), (''Buffers'', 50), (''Cached'', 100)]
     ''Cached'' = Inr 10"
proof -
  let ?m = "[(''MemFree'', 250), (''MemTotal'', 1000), (''Buffers'', 50), (''Cached'', 100)]"
  have t: "mem_get ?m ''MemTotal'' = Inr 1000" by (simp add: mem_get_def)
  have g: "mem_get ?m ''MemFree'' = Inr 250" "mem_get ?m ''Buffers'' = Inr 50"
    "mem_get ?m ''Cached'' = Inr 100" by (simp_all add: mem_get_def)
  note th = percent_truncation_bounded [OF t]
  have s: "used_percent_spec 1000 250 = 75" "part_percent_spec 50 1000 = 5"
    "part_percent_spec 100 1000 = 10"
    by (simp_all add: used_percent_spec_def part_percent_spec_def trunc_div_def)
  from th have a: "used_percent ?m ''MemFree'' ''MemTotal'' = Inr (used_percent_spec 1000 250)"
    using g(1) by simp
  from th have b: "part_percent ?m ''Buffers'' = Inr (part_percent_spec 50 1000)"
    using g(2) by simp
  from th have c: "part_percent ?m ''Cached'' = Inr (part_percent_spec 100 1000)"
    using g(3) by simp
  from a b c s show ?thesis by simp
qed

text \<open>
  Beyond that range the rounding of the two floating-point operations shows: with
  \<open>MemTotal = 10\<^sup>1\<^sup>7\<close> and \<open>MemFree = 1\<close> the quotient \<open>10\<^sup>-\<^sup>1\<^sup>5\<close> is less than half the spacing of
  the floats below 100, the difference rounds to 100, and the script reports 100 where
  the truncated quotient is 99.
\<close>

lemma rnd_near_100:
  assumes "0 \<le> r" and "r \<le> 1 / 2 ^ 49"
  shows "rnd (100 - r) = 100"
proof -
  define y where "y = 100 - r"
  have y: "100 - 1 / 2 ^ 49 \<le> y" "y \<le> 100" using assms by (simp_all add: y_def)
  then have ypos: "0 < y" by simp
  have "ilog2 y = 6"
    by (rule ilog2_unique) (use y in simp_all)
  then have u: "ulp y = 1 / 2 ^ 46"
    using ypos by (simp add: ulp_def power_int_minus field_simps)
  have "round_half_even (y / ulp y) = 100 * 2 ^ 46"
  proof (rule round_half_even_eq)
    have e1: "y / ulp y = y * 2 ^ 46" by (simp add: u)
    have "y * 2 ^ 46 - of_int (100 * 2 ^ 46) = - (r * 2 ^ 46)"
      by (simp add: y_def algebra_simps)
    with e1 have "y / ulp y - of_int (100 * 2 ^ 46) = - (r * 2 ^ 46)" by simp
    moreover have "r * 2 ^ 46 \<le> 1 / 8" using assms(2) by simp
    moreover have "0 \<le> r * 2 ^ 46" using assms(1) by simp
    ultimately show "\<bar>y / ulp y - of_int (100 * 2 ^ 46)\<bar> < 1 / 2" by simp
  qed
  then have "rnd y = 100"
    using ypos by (simp add: rnd_def u)
  then show ?thesis by (simp add: y_def)
qed

theorem percent_truncation_counterexample:
  "used_percent [(''MemFree'', 1), (''MemTotal'', 100000000000000000)] ''MemFree'' ''MemTotal''
     = Inr 100 \<and>
   used_percent_spec 100000000000000000 1 = 99"
proof -
  let ?m = "[(''MemFree'', 1), (''MemTotal'', 100000000000000000)]"
  define q where "q = (of_int (100 * 1) / of_int 100000000000000000 :: rat)"
  have q0: "0 \<le> rnd q"
    using rnd_ge_int [of 0 q] by (simp add: q_def)
  have q1: "rnd q \<le> 1 / 2 ^ 49"
    using rnd_le [of 1 "- 49" q] by (simp add: q_def power_int_minus)
  have "\<bar>rnd q\<bar> \<le> 1000" using q0 q1 by simp
  then have td: "true_div (100 * 1) 100000000000000000 = Inr (rnd q)"
    unfolding q_def by (intro true_div_bounded) simp_all
  have "float_to_int (int_minus_float 100 (rnd q)) = 100"
    using rnd_near_100 [OF q0 q1] by (simp add: int_minus_float_def float_to_int_def)
  with td have a: "used_percent ?m ''MemFree'' ''MemTotal'' = Inr 100"
    by (simp add: used_percent_def mem_get_def py_bind_def)
  have b: "used_percent_spec 100000000000000000 1 = 99"
    by (simp add: used_percent_spec_def trunc_div_def)
  from a b show ?thesis by simp
qed

section \<open>Checked services\<close>

text \<open>
  Claim C10. \<open>get_checked_services\<close> checks the names of the module variable
  \<open>services_to_monitor\<close> (here \<open>G\<close>) whatever set it is given: two set arguments give the
  same dictionary, whose keys are \<open>G\<close>; an argument that is not a set gives the empty
  dictionary.
\<close>

theorem services_checked_from_global:
  "get_checked_services G pgrep (IsSet S) = get_checked_services G pgrep (IsSet S') \<and>
   dom (get_checked_services G pgrep (IsSet S)) = G \<and>
   (\<forall>s \<in> G. get_checked_services G pgrep (IsSet S) s = Some (service_state pgrep s)) \<and>
   get_checked_services G pgrep NotSet = Map.empty"
  by (auto simp: get_checked_services_def dom_def)

theorem services_checked_from_global_witness:
  "get_checked_services {''sshd''} (\<lambda>s. if s = ''sshd'' then ToolOutput ''812'' else ToolFailed)
     (IsSet {''nginx''}) =
   get_checked_services {''sshd''} (\<lambda>s. if s = ''sshd'' then ToolOutput ''812'' else ToolFailed)
     (IsSet {''sshd''}) \<and>
   get_checked_services {''sshd''} (\<lambda>s. if s = ''sshd'' then ToolOutput ''812'' else ToolFailed)
     (IsSet {''nginx''}) ''sshd'' = Some True \<and>
   dom (get_checked_services {''sshd''} (\<lambda>s. if s = ''sshd'' then ToolOutput ''812'' else ToolFailed)
     (IsSet {''nginx''})) = {''sshd''}"
proof -
  let ?pg = "\<lambda>s. if s = ''sshd'' then ToolOutput ''812'' else ToolFailed"
  note t = services_checked_from_global [of "{''sshd''}" ?pg "{''nginx''}" "{''sshd''}"]
  have st: "service_state ?pg ''sshd'' = True"
    by code_simp
  from t have a: "get_checked_services {''sshd''} ?pg (IsSet {''nginx''}) =
      get_checked_services {''sshd''} ?pg (IsSet {''sshd''})"
    by (rule conjunct1)
  from t have b: "dom (get_checked_services {''sshd''} ?pg (IsSet {''nginx''})) = {''sshd''}"
    by blast
  from t have "\<forall>s \<in> {''sshd''}. get_checked_services {''sshd''} ?pg (IsSet {''nginx''}) s =
      Some (service_state ?pg s)"
    by blast
  then have c: "get_checked_services {''sshd''} ?pg (IsSet {''nginx''}) ''sshd'' = Some True"
    using st by simp
  from a b c show ?thesis by blast
qed

end
